theory Spec2Isabelle
  imports Complex_Main
begin

section \<open>Python and NumPy primitives\<close>

text \<open>
  The exceptions that the modelled code can raise.  \<open>FitError\<close> stands for any exception
  raised by the external least-squares kernel (SciPy's \<open>LSQUnivariateSpline\<close>).
\<close>

datatype error =
    AssertionError
  | ZeroDivisionError
  | ValueError
  | IndexError
  | AttributeError
  | FitError

text \<open>
  Python floats are modelled as real numbers.  Every arithmetic operation of the source
  is followed by a rounding function \<open>rnd\<close>, a parameter of the model: the identity gives
  exact arithmetic, \<open>rn64\<close> (below) gives IEEE-754 binary64 rounding to nearest, ties to
  even.  Overflow, infinities in the data and NaN in the data are not modelled; the one
  NaN the code can produce from finite data (the median of an empty selection) is.
\<close>

type_synonym rounding = "real \<Rightarrow> real"



definition as_bool :: "real list \<Rightarrow> bool list" where
  \<comment> \<open>\<open>np.asarray(w, dtype=bool)\<close>: nonzero is true\<close>
  "as_bool ws = map (\<lambda>x. x \<noteq> 0) ws"

definition as_float :: "bool list \<Rightarrow> real list" where
  \<comment> \<open>\<open>np.asarray(w, dtype=float)\<close> of a boolean array\<close>
  "as_float bs = map (\<lambda>b. if b then 1 else 0) bs"

definition broadcast2 :: "('a \<Rightarrow> 'b \<Rightarrow> 'c) \<Rightarrow> 'a list \<Rightarrow> 'b list \<Rightarrow> error + 'c list" where
  \<comment> \<open>an elementwise binary operation on one-dimensional arrays, with NumPy's broadcasting\<close>
  "broadcast2 f xs ys =
     (if length xs = length ys then Inr (map2 f xs ys)
      else if length xs = 1 then Inr (map (f (hd xs)) ys)
      else if length ys = 1 then Inr (map (\<lambda>x. f x (hd ys)) xs)
      else Inl ValueError)"

definition imul :: "rounding \<Rightarrow> real list \<Rightarrow> real list \<Rightarrow> error + real list" where
  \<comment> \<open>\<open>w *= v\<close> in place: the result must have the shape of \<open>w\<close>\<close>
  "imul rnd ws vs =
     (if length vs = length ws then Inr (map2 (\<lambda>a b. rnd (a * b)) ws vs)
      else if length vs = 1 then Inr (map (\<lambda>a. rnd (a * hd vs)) ws)
      else Inl ValueError)"

definition bool_index :: "'a list \<Rightarrow> bool list \<Rightarrow> error + 'a list" where
  \<comment> \<open>\<open>a[bm]\<close> with a boolean mask \<open>bm\<close>\<close>
  "bool_index xs bm =
     (if length bm = length xs then Inr (map fst (filter snd (zip xs bm)))
      else Inl IndexError)"

definition slice_from :: "'a list \<Rightarrow> nat \<Rightarrow> int \<Rightarrow> error + 'a list" where
  \<comment> \<open>\<open>xs[start::step]\<close> for a non-negative \<open>start\<close>\<close>
  "slice_from xs start step =
     (if step = 0 then Inl ValueError
      else if 0 < step then
        Inr (map (\<lambda>i. xs ! i) (filter (\<lambda>i. (i - start) mod nat step = 0) [start..<length xs]))
      else if xs = [] then Inr []
      else let s = min start (length xs - 1) in
        Inr (map (\<lambda>i. xs ! i) (filter (\<lambda>i. (s - i) mod nat (- step) = 0) (rev [0..<Suc s]))))"

datatype stat = NaN | Fin real

definition nanmedian :: "rounding \<Rightarrow> real list \<Rightarrow> stat" where
  \<comment> \<open>\<open>np.nanmedian\<close> of finite data: NaN when empty, the middle element of the sorted
      data, or the mean of the two middle elements\<close>
  "nanmedian rnd xs =
     (let n = length xs; s = sort xs in
      if n = 0 then NaN
      else if odd n then Fin (s ! (n div 2))
      else Fin (rnd (rnd (s ! (n div 2 - 1) + s ! (n div 2)) / 2)))"

section \<open>util.py\<close>

text \<open>
  \<open>mask_index\<close> scans the mask, with a true sentinel appended, by a two-state machine.
  The conversion \<open>dtype=bool\<close> inside it is applied by the caller in the model (\<open>as_bool\<close>),
  since a HOL list has one element type.
\<close>

datatype scan_state = want_0 | want_1

fun mask_step :: "nat list list \<times> nat list \<times> scan_state \<Rightarrow> nat \<times> bool \<Rightarrow>
    nat list list \<times> nat list \<times> scan_state" where
  "mask_step (res, thisres, state) (i, w) =
     (if w \<and> state = want_0 then (res, thisres, state)
      else if w \<and> state = want_1 then (res @ [thisres @ [i]], [], want_0)
      else if \<not> w \<and> state = want_0 then (res, thisres @ [i], want_1)
      else (res, thisres, state))"

definition mask_index :: "bool list \<Rightarrow> nat list list" where
  "mask_index warray = fst (foldl mask_step ([], [], want_0) (enumerate 0 (warray @ [True])))"

definition dist_xor :: "bool list \<Rightarrow> bool list \<Rightarrow> error + int" where
  \<comment> \<open>\<open>dist\<close>: the number of positions at which the two masks differ\<close>
  "dist_xor x y =
     (case broadcast2 (\<lambda>a b. a \<noteq> b) x y of
        Inl e \<Rightarrow> Inl e
      | Inr d \<Rightarrow> Inr (int (length (filter id d))))"

section \<open>spline\_model.py\<close>

datatype kwval = KStr string | KInt int | KReal real

type_synonym kwargs = "string \<rightharpoonup> kwval"

type_synonym evaluator = "real \<Rightarrow> real"

text \<open>
  The external kernel \<open>LSQUnivariateSpline(t, y, knots, w, **kwargs)\<close> is a parameter: it
  returns the fitted evaluator or raises.
\<close>

type_synonym kernel =
  "real list \<Rightarrow> real list \<Rightarrow> real list \<Rightarrow> real list \<Rightarrow> kwargs \<Rightarrow> error + evaluator"

record SplineModel =
  self_t :: "real list"
  self_y :: "real list"
  self_w :: "real list"
  self_knots :: "real list"
  kwargs_save :: kwargs
  spr :: evaluator
  self_pred :: "real list"
  stats_dirty :: bool
  rmad :: "stat option"

text \<open>
  \<open>rmad\<close> is \<open>None\<close> while the attribute has not been assigned.  An exception drops the
  partially updated object: the model returns only the error.
\<close>

definition replace_mask :: "kernel \<Rightarrow> SplineModel \<Rightarrow> real list \<Rightarrow> error + SplineModel" where
  "replace_mask fit self w =
     (if length w \<noteq> length (self_t self) then Inl AssertionError
      else case fit (self_t self) (self_y self) (self_knots self) w (kwargs_save self) of
        Inl e \<Rightarrow> Inl e
      | Inr f \<Rightarrow>
          Inr (self\<lparr>self_w := w, spr := f, self_pred := map f (self_t self),
                    stats_dirty := True\<rparr>))"

definition SplineModel_init :: "kernel \<Rightarrow> real list \<Rightarrow> real list \<Rightarrow> int \<Rightarrow> real list option \<Rightarrow>
    real list option \<Rightarrow> kwargs \<Rightarrow> error + SplineModel" where
  \<comment> \<open>\<open>SplineModel(t, y, nknots, knots_override, w, **spline_args)\<close>; the attributes that
      \<open>replace_mask\<close> assigns first are given placeholders\<close>
  "SplineModel_init fit t y nknots knots_override w spline_args =
     (if length t \<noteq> length y then Inl AssertionError
      else
        let kwargs = ((Map.empty(''ext'' \<mapsto> KStr ''const'')) ++ spline_args)(''k'' \<mapsto> KInt 3) in
        if nknots = 0 then Inl ZeroDivisionError
        else
          let N = int (length y) div nknots in
          case (case knots_override of
                  None \<Rightarrow> slice_from t (nat (max (N div 2) 1)) N
                | Some ko \<Rightarrow> Inr ko) of
            Inl e \<Rightarrow> Inl e
          | Inr ks \<Rightarrow>
              let winit = (case w of None \<Rightarrow> replicate (length t) 1 | Some w' \<Rightarrow> w') in
              replace_mask fit
                \<lparr>self_t = t, self_y = y, self_w = [], self_knots = ks, kwargs_save = kwargs,
                 spr = (\<lambda>x. 0), self_pred = [], stats_dirty = True, rmad = None\<rparr> winit)"

definition update_stats :: "rounding \<Rightarrow> SplineModel \<Rightarrow> error + SplineModel" where
  \<comment> \<open>the body of \<open>if self._stats_dirty:\<close> in \<open>inlier_predicate\<close>\<close>
  "update_stats rnd self =
     (let bm = as_bool (self_w self) in
      case bool_index (self_y self) bm of
        Inl e \<Rightarrow> Inl e
      | Inr ys \<Rightarrow>
          (case bool_index (self_pred self) bm of
             Inl e \<Rightarrow> Inl e
           | Inr ps \<Rightarrow>
               let residuals = map2 (\<lambda>a b. rnd (a - b)) ys ps in
               Inr (self\<lparr>rmad := Some (nanmedian rnd (map abs residuals)),
                         stats_dirty := False\<rparr>)))"

definition in_band :: "rounding \<Rightarrow> stat \<Rightarrow> real \<Rightarrow> real \<Rightarrow> real \<Rightarrow> bool" where
  \<comment> \<open>\<open>(lb <= dev / rmad) & (dev / rmad <= ub)\<close> for finite bounds: division by a NaN or by
      zero gives NaN or an infinity, for which the conjunction is false\<close>
  "in_band rnd r lb ub dev =
     (case r of
        NaN \<Rightarrow> False
      | Fin m \<Rightarrow> if m = 0 then False else lb \<le> rnd (dev / m) \<and> rnd (dev / m) \<le> ub)"

definition inlier_predicate :: "rounding \<Rightarrow> SplineModel \<Rightarrow> real list \<Rightarrow> real list \<Rightarrow> real \<Rightarrow> real \<Rightarrow>
    error + (bool list \<times> SplineModel)" where
  "inlier_predicate rnd self t y ub lb =
     (case (if stats_dirty self then update_stats rnd self else Inr self) of
        Inl e \<Rightarrow> Inl e
      | Inr self1 \<Rightarrow>
          (let preds = map (spr self1) t in
           case broadcast2 (\<lambda>a b. rnd (a - b)) y preds of
             Inl e \<Rightarrow> Inl e
           | Inr devs \<Rightarrow>
               (case rmad self1 of
                  None \<Rightarrow> Inl AttributeError
                | Some r \<Rightarrow> Inr (map (in_band rnd r lb ub) devs, self1))))"

record FitResult =
  status :: int
  message :: string
  niter :: int
  dfinal :: int

text \<open>
  The loop of \<open>refine\<close>.  The last component of the result counts the evaluations of
  \<open>inlier_predicate\<close>; it is the only addition to the source.  \<open>dxor\<close> is unbound before
  the first iteration; the loop body runs at least once, since \<open>maxiter > 0\<close>.
\<close>

function refine_loop :: "kernel \<Rightarrow> rounding \<Rightarrow> int \<Rightarrow> int \<Rightarrow> SplineModel \<Rightarrow> int \<Rightarrow> int \<Rightarrow> nat \<Rightarrow>
    error + (FitResult \<times> SplineModel \<times> nat)" where
  "refine_loop fit rnd target_d maxiter self k dxor evals =
     (if k \<le> maxiter then
        (case inlier_predicate rnd self (self_t self) (self_y self) 4 (- 10) of
           Inl e \<Rightarrow> Inl e
         | Inr (w_post_pred, self1) \<Rightarrow>
             (case dist_xor w_post_pred (as_bool (self_w self1)) of
                Inl e \<Rightarrow> Inl e
              | Inr dxor' \<Rightarrow>
                  if dxor' \<le> target_d then
                    Inr (\<lparr>status = 0, message = ''Converged'', niter = k, dfinal = dxor'\<rparr>,
                         self1, Suc evals)
                  else
                    (case replace_mask fit self1 (as_float w_post_pred) of
                       Inl e \<Rightarrow> Inl e
                     | Inr self2 \<Rightarrow>
                         refine_loop fit rnd target_d maxiter self2 (k + 1) dxor' (Suc evals))))
      else
        Inr (\<lparr>status = 1, message = ''Maximum iteration limit exceeded'', niter = k,
              dfinal = dxor\<rparr>, self, evals))"
  by pat_completeness auto
termination
  by (relation "measure (\<lambda>(fit, rnd, target_d, maxiter, self, k, dxor, evals). nat (maxiter + 1 - k))") auto

definition refine :: "kernel \<Rightarrow> rounding \<Rightarrow> SplineModel \<Rightarrow> int \<Rightarrow> int \<Rightarrow>
    error + (FitResult \<times> SplineModel \<times> nat)" where
  \<comment> \<open>\<open>self.refine(target_d, maxiter)\<close>: the result record, the instance after the call,
      and the number of classifications\<close>
  "refine fit rnd self target_d maxiter =
     (if \<not> target_d \<ge> 0 then Inl AssertionError
      else if \<not> maxiter > 0 then Inl AssertionError
      else refine_loop fit rnd target_d maxiter self 0 0 0)"

definition py_get :: "'a list \<Rightarrow> int \<Rightarrow> error + 'a" where
  \<comment> \<open>\<open>xs[i]\<close>; the indices \<open>-len(xs) .. -1\<close> count from the end\<close>
  "py_get xs i =
     (if 0 \<le> i \<and> i < int (length xs) then Inr (xs ! nat i)
      else if i < 0 \<and> - int (length xs) \<le> i then Inr (xs ! nat (int (length xs) + i))
      else Inl IndexError)"

fun knot_in_gap :: "real list \<Rightarrow> real \<Rightarrow> nat list list \<Rightarrow> error + bool" where
  \<comment> \<open>the inner loop of \<open>cure_knots\<close>: the final value of \<open>skip\<close>\<close>
  "knot_in_gap t knot [] = Inr False"
| "knot_in_gap t knot (mi # midx) =
     (case mi of
        [mi_lo, mi_hi] \<Rightarrow>
          (case py_get t (int mi_lo) of
             Inl e \<Rightarrow> Inl e
           | Inr mloc_lo \<Rightarrow>
               (case py_get t (int mi_hi - 1) of
                  Inl e \<Rightarrow> Inl e
                | Inr mloc_hi \<Rightarrow>
                    if mloc_lo < knot \<and> knot < mloc_hi then Inr True
                    else knot_in_gap t knot midx))
      | _ \<Rightarrow> Inl ValueError)"

fun cure_loop :: "real list \<Rightarrow> nat list list \<Rightarrow> real list \<Rightarrow> error + real list" where
  \<comment> \<open>the outer loop of \<open>cure_knots\<close>: the final value of \<open>kt_new\<close>\<close>
  "cure_loop t midx [] = Inr []"
| "cure_loop t midx (knot # knots) =
     (case knot_in_gap t knot midx of
        Inl e \<Rightarrow> Inl e
      | Inr skip \<Rightarrow>
          (case cure_loop t midx knots of
             Inl e \<Rightarrow> Inl e
           | Inr kt \<Rightarrow> Inr (if skip then kt else knot # kt)))"

definition cure_knots :: "kernel \<Rightarrow> SplineModel \<Rightarrow> error + SplineModel" where
  "cure_knots fit self =
     (case cure_loop (self_t self) (mask_index (as_bool (self_w self))) (self_knots self) of
        Inl e \<Rightarrow> Inl e
      | Inr kt_new \<Rightarrow>
          SplineModel_init fit (self_t self) (self_y self) 23 (Some kt_new)
            (Some (self_w self)) (kwargs_save self))"

section \<open>aggregate.py\<close>

text \<open>
  \<open>duplicates\<close> is an integer and \<open>proximity_factor\<close> a float, so \<open>int(duplicates)\<close>
  and \<open>float(proximity_factor)\<close> change nothing.  The keyword arguments forwarded to
  \<open>refine\<close> are its two parameters \<open>target_d\<close> and \<open>maxiter\<close>, given explicitly (a
  caller that passes none gets \<open>refine\<close>'s defaults 1 and 50).  The two loops and the
  two constructor calls of the function are definitions of their own, so that the
  temporary models and the final model can be named.
\<close>

definition shift_scales :: "rounding \<Rightarrow> SplineModel \<Rightarrow> int \<Rightarrow> real \<Rightarrow> error + (real \<times> real)" where
  \<comment> \<open>\<open>(scale_left, scale_right)\<close>\<close>
  "shift_scales rnd model d p =
     (let q = rnd (rnd (1 - p) / of_int d) in
      if self_knots model = [] \<or> self_t model = [] then Inl IndexError
      else
        Inr (rnd (rnd (hd (self_knots model) - hd (self_t model)) * q),
             rnd (rnd (last (self_t model) - last (self_knots model)) * q)))"

definition shifted_knots :: "rounding \<Rightarrow> real list \<Rightarrow> int \<Rightarrow> real \<Rightarrow> real list" where
  \<comment> \<open>\<open>model.knots + i * scale\<close>\<close>
  "shifted_knots rnd knots i scale = map (\<lambda>k. rnd (k + rnd (of_int i * scale))) knots"

definition shifted_member :: "kernel \<Rightarrow> rounding \<Rightarrow> SplineModel \<Rightarrow> int \<Rightarrow> real \<Rightarrow> error + SplineModel" where
  \<comment> \<open>the construction of \<open>this_model\<close> in either loop\<close>
  "shifted_member fit rnd model i scale =
     SplineModel_init fit (self_t model) (self_y model) 23
       (Some (shifted_knots rnd (self_knots model) i scale)) None (kwargs_save model)"

fun shifted_loop :: "kernel \<Rightarrow> rounding \<Rightarrow> SplineModel \<Rightarrow> real \<Rightarrow> int \<Rightarrow> int \<Rightarrow> int list \<Rightarrow>
    error + SplineModel list" where
  \<comment> \<open>one of the two loops over \<open>i\<close>: the models appended to \<open>shifted_models\<close>\<close>
  "shifted_loop fit rnd model scale target_d maxiter [] = Inr []"
| "shifted_loop fit rnd model scale target_d maxiter (i # is) =
     (case shifted_member fit rnd model i scale of
        Inl e \<Rightarrow> Inl e
      | Inr this_model \<Rightarrow>
          (case refine fit rnd this_model target_d maxiter of
             Inl e \<Rightarrow> Inl e
           | Inr (res, refined, evals) \<Rightarrow>
               (case shifted_loop fit rnd model scale target_d maxiter is of
                  Inl e \<Rightarrow> Inl e
                | Inr ms \<Rightarrow> Inr (refined # ms))))"

fun consensus :: "rounding \<Rightarrow> real list \<Rightarrow> SplineModel list \<Rightarrow> error + real list" where
  \<comment> \<open>\<open>for m in shifted_models: w *= m.w\<close>\<close>
  "consensus rnd w [] = Inr w"
| "consensus rnd w (m # ms) =
     (case imul rnd w (self_w m) of Inl e \<Rightarrow> Inl e | Inr w' \<Rightarrow> consensus rnd w' ms)"

definition final_model :: "kernel \<Rightarrow> SplineModel \<Rightarrow> real list \<Rightarrow> error + SplineModel" where
  \<comment> \<open>the construction of \<open>model_new\<close>\<close>
  "final_model fit model w =
     SplineModel_init fit (self_t model) (self_y model) 23 None (Some w) (kwargs_save model)"

definition knot_shift_aggregate :: "kernel \<Rightarrow> rounding \<Rightarrow> SplineModel \<Rightarrow> int \<Rightarrow> real \<Rightarrow> int \<Rightarrow> int \<Rightarrow>
    error + SplineModel" where
  \<comment> \<open>\<open>knot_shift_aggregate(model, duplicates, proximity_factor, target_d=.., maxiter=..)\<close>\<close>
  "knot_shift_aggregate fit rnd model duplicates proximity_factor target_d maxiter =
     (let d = duplicates; p = proximity_factor in
      if \<not> d > 0 then Inl AssertionError
      else if \<not> (0 < p \<and> p < 1) then Inl AssertionError
      else
        case shift_scales rnd model d p of
          Inl e \<Rightarrow> Inl e
        | Inr (scale_left, scale_right) \<Rightarrow>
            (case shifted_loop fit rnd model scale_left target_d maxiter [- d..- 1] of
               Inl e \<Rightarrow> Inl e
             | Inr lefts \<Rightarrow>
                 (case shifted_loop fit rnd model scale_right target_d maxiter [1..d] of
                    Inl e \<Rightarrow> Inl e
                  | Inr rights \<Rightarrow>
                      (case consensus rnd (self_w model) (lefts @ rights) of
                         Inl e \<Rightarrow> Inl e
                       | Inr w \<Rightarrow>
                           (case final_model fit model w of
                              Inl e \<Rightarrow> Inl e
                            | Inr model_new \<Rightarrow>
                                (case cure_knots fit model_new of
                                   Inl e \<Rightarrow> Inl e
                                 | Inr model_agg \<Rightarrow>
                                     (case refine fit rnd model_agg target_d maxiter of
                                        Inl e \<Rightarrow> Inl e
                                      | Inr (res, refined, evals) \<Rightarrow> Inr refined)))))))"

section \<open>Vocabulary of the properties\<close>

text \<open>
  The scanner as two mutually recursive functions, one per state: \<open>seek0 i bs\<close> scans
  \<open>bs\<close>, whose first element has index \<open>i\<close>, outside a run; \<open>seek1 s i bs\<close> scans inside
  the run that started at \<open>s\<close>.  \<open>is_run bs lo hi\<close>: positions \<open>lo..<hi\<close> are a maximal
  run of false values of \<open>bs\<close>.  \<open>decode\<close> rebuilds a mask of length \<open>n\<close> from intervals.
\<close>

fun seek0 :: "nat \<Rightarrow> bool list \<Rightarrow> nat list list"
  and seek1 :: "nat \<Rightarrow> nat \<Rightarrow> bool list \<Rightarrow> nat list list" where
  "seek0 i [] = []"
| "seek0 i (b # bs) = (if b then seek0 (Suc i) bs else seek1 i (Suc i) bs)"
| "seek1 s i [] = []"
| "seek1 s i (b # bs) = (if b then [s, i] # seek0 (Suc i) bs else seek1 s (Suc i) bs)"

definition covered :: "nat \<Rightarrow> nat list list \<Rightarrow> bool" where
  "covered j ivs = list_ex (\<lambda>iv. iv ! 0 \<le> j \<and> j < iv ! 1) ivs"

definition decode :: "nat \<Rightarrow> nat list list \<Rightarrow> bool list" where
  "decode n ivs = map (\<lambda>j. \<not> covered j ivs) [0..<n]"

definition is_run :: "bool list \<Rightarrow> nat \<Rightarrow> nat \<Rightarrow> bool" where
  "is_run bs lo hi \<longleftrightarrow>
     lo < hi \<and> hi \<le> length bs \<and> (\<forall>j. lo \<le> j \<and> j < hi \<longrightarrow> \<not> bs ! j) \<and>
     (lo = 0 \<or> bs ! (lo - 1)) \<and> (hi = length bs \<or> bs ! hi)"

definition ivs_from :: "nat \<Rightarrow> nat \<Rightarrow> nat list list \<Rightarrow> bool" where
  "ivs_from i n ivs \<longleftrightarrow>
     sorted_wrt (\<lambda>a b. a ! 1 < b ! 0) ivs \<and>
     (\<forall>iv \<in> set ivs. \<exists>lo hi. iv = [lo, hi] \<and> i \<le> lo \<and> lo < hi \<and> hi < n)"

text \<open>
  For \<open>refine\<close>: \<open>classify\<close> is the classification the loop body performs,
  \<open>cand_dist\<close> the distance it then tests, \<open>commit\<close> one iteration that does not
  converge (classification, then \<open>replace_mask\<close> with the candidate), \<open>commits j\<close> the
  first \<open>j\<close> such iterations, and \<open>rejects i\<close> says that iteration \<open>i\<close> is reached and
  its distance test fails.  \<open>flat_fit\<close> is a kernel that always fits the zero function,
  \<open>exact\<close> is arithmetic without rounding, and \<open>sample_model\<close> a model of six samples
  as its constructor leaves it; they serve as concrete inputs.
\<close>

definition classify :: "rounding \<Rightarrow> SplineModel \<Rightarrow> error + (bool list \<times> SplineModel)" where
  "classify rnd s = inlier_predicate rnd s (self_t s) (self_y s) 4 (- 10)"

definition cand_dist :: "rounding \<Rightarrow> SplineModel \<Rightarrow> error + int" where
  "cand_dist rnd s =
     (case classify rnd s of
        Inl e \<Rightarrow> Inl e
      | Inr (c, s1) \<Rightarrow> dist_xor c (as_bool (self_w s1)))"

definition commit :: "kernel \<Rightarrow> rounding \<Rightarrow> SplineModel \<Rightarrow> error + SplineModel" where
  "commit fit rnd s =
     (case classify rnd s of
        Inl e \<Rightarrow> Inl e
      | Inr (c, s1) \<Rightarrow> replace_mask fit s1 (as_float c))"

fun commits :: "kernel \<Rightarrow> rounding \<Rightarrow> nat \<Rightarrow> SplineModel \<Rightarrow> error + SplineModel" where
  "commits fit rnd 0 s = Inr s"
| "commits fit rnd (Suc j) s =
     (case commit fit rnd s of Inl e \<Rightarrow> Inl e | Inr s' \<Rightarrow> commits fit rnd j s')"

definition rejects :: "kernel \<Rightarrow> rounding \<Rightarrow> int \<Rightarrow> SplineModel \<Rightarrow> nat \<Rightarrow> bool" where
  "rejects fit rnd target_d s i \<longleftrightarrow>
     (\<exists>s_i d_i. commits fit rnd i s = Inr s_i \<and> cand_dist rnd s_i = Inr d_i \<and> target_d < d_i)"

definition flat_fit :: kernel where
  "flat_fit t y knots w kw = Inr (\<lambda>x. 0)"

definition exact :: rounding where
  "exact x = x"

definition sample_model :: SplineModel where
  "sample_model =
     \<lparr>self_t = [0, 1, 2, 3, 4, 5], self_y = [1, 1, 1, 6, 6, 30], self_w = [1, 1, 1, 1, 1, 1],
      self_knots = [5 / 2], kwargs_save = [''ext'' \<mapsto> KStr ''const'', ''k'' \<mapsto> KInt 3],
      spr = (\<lambda>x. 0), self_pred = [0, 0, 0, 0, 0, 0], stats_dirty = True, rmad = None\<rparr>"

text \<open>
  For \<open>cure_knots\<close>: \<open>init_kwargs\<close> is the configuration the constructor saves,
  \<open>kept_knots s\<close> the knots of \<open>s\<close> that are not strictly inside the span
  \<open>(t[lo], t[hi - 1])\<close> of a maximal run \<open>lo..<hi\<close> of zero weights, and \<open>gap_model\<close>
  a model with one such run.
\<close>

definition init_kwargs :: "kwargs \<Rightarrow> kwargs" where
  "init_kwargs spline_args = ((Map.empty(''ext'' \<mapsto> KStr ''const'')) ++ spline_args)(''k'' \<mapsto> KInt 3)"

definition kept_knots :: "SplineModel \<Rightarrow> real list" where
  "kept_knots s =
     filter (\<lambda>knot. \<not> (\<exists>lo hi. is_run (as_bool (self_w s)) lo hi \<and>
                self_t s ! lo < knot \<and> knot < self_t s ! (hi - 1)))
       (self_knots s)"

definition gap_model :: SplineModel where
  "gap_model =
     \<lparr>self_t = [0, 1, 2, 3, 4, 5], self_y = [1, 1, 9, 9, 9, 1], self_w = [1, 1, 0, 0, 0, 1],
      self_knots = [1 / 2, 2, 5 / 2, 3, 4, 9 / 2],
      kwargs_save = [''ext'' \<mapsto> KStr ''const'', ''k'' \<mapsto> KInt 3],
      spr = (\<lambda>x. 0), self_pred = [0, 0, 0, 0, 0, 0], stats_dirty = True, rmad = None\<rparr>"

text \<open>
  \<open>refined_model\<close> is \<open>sample_model\<close> after \<open>refine\<close> with \<open>target_d = 0\<close>: its last
  three samples are outliers.
\<close>

definition refined_model :: SplineModel where
  "refined_model =
     sample_model\<lparr>self_w := [1, 1, 1, 0, 0, 0], rmad := Some (Fin 1), stats_dirty := False\<rparr>"


section \<open>Properties of \<open>mask_index\<close>\<close>

lemma foldl_seek:
  "fst (foldl mask_step (res, [], want_0) (enumerate i xs)) = res @ seek0 i xs"
  "fst (foldl mask_step (res, [s], want_1) (enumerate i xs)) = res @ seek1 s i xs"
  by (induction xs arbitrary: res i s) auto

lemma mask_index_seek: "mask_index bs = seek0 0 (bs @ [True])"
  by (simp add: mask_index_def foldl_seek)

lemma ivs_from_mono: "ivs_from i n ivs \<Longrightarrow> i' \<le> i \<Longrightarrow> ivs_from i' n ivs"
  by (fastforce simp: ivs_from_def)

lemma seek_struct:
  "ivs_from i (i + length ys) (seek0 i ys)"
  "s < i \<Longrightarrow> seek1 s i ys = [] \<or> (\<exists>hi rest. seek1 s i ys = [s, hi] # rest \<and> i \<le> hi \<and> hi < i + length ys \<and> ivs_from (Suc hi) (i + length ys) rest)"
proof (induction i ys and s i ys rule: seek0_seek1.induct)
  case (1 i)
  then show ?case by (simp add: ivs_from_def)
next
  case (2 i b bs)
  show ?case
  proof (cases b)
    case True
    then show ?thesis using 2(1) by (auto intro: ivs_from_mono)
  next
    case False
    then have "seek1 i (Suc i) bs = [] \<or> (\<exists>hi rest. seek1 i (Suc i) bs = [i, hi] # rest \<and> Suc i \<le> hi \<and> hi < Suc i + length bs \<and> ivs_from (Suc hi) (Suc i + length bs) rest)"
      using 2(2) by simp
    then show ?thesis using False
      by (fastforce simp: ivs_from_def)
  qed
next
  case (3 s i)
  then show ?case by simp
next
  case (4 s i b bs)
  show ?case
  proof (cases b)
    case True
    then show ?thesis using 4(1) 4(3) by auto
  next
    case False
    then show ?thesis using 4(2) 4(3) by (auto simp: less_Suc_eq)
  qed
qed


lemma covered_simps [simp]:
  "covered j [] = False"
  "covered j (iv # ivs) \<longleftrightarrow> (iv ! 0 \<le> j \<and> j < iv ! 1) \<or> covered j ivs"
  by (simp_all add: covered_def)

lemma covered_iff: "covered j ivs \<longleftrightarrow> (\<exists>iv \<in> set ivs. iv ! 0 \<le> j \<and> j < iv ! 1)"
  by (simp add: covered_def list_ex_iff)

lemma ivs_from_not_covered: "ivs_from i n ivs \<Longrightarrow> j < i \<Longrightarrow> \<not> covered j ivs"
  by (fastforce simp: ivs_from_def covered_iff)

lemma seek_cover_aux:
  "(\<forall>i j. j < length (xs @ [True]) \<longrightarrow>
      (covered (i + j) (seek0 i (xs @ [True])) \<longleftrightarrow> \<not> (xs @ [True]) ! j)) \<and>
   (\<forall>s i j. s < i \<longrightarrow> j < length (xs @ [True]) \<longrightarrow>
      (covered (i + j) (seek1 s i (xs @ [True])) \<longleftrightarrow> \<not> (xs @ [True]) ! j)) \<and>
   (\<forall>s i k. s < i \<longrightarrow> s \<le> k \<longrightarrow> k < i \<longrightarrow> covered k (seek1 s i (xs @ [True])))"
proof (induction xs)
  case Nil
  show ?case by simp
next
  case (Cons b bs)
  have A: "\<And>i j. j < length (bs @ [True]) \<Longrightarrow>
      covered (i + j) (seek0 i (bs @ [True])) \<longleftrightarrow> \<not> (bs @ [True]) ! j"
    and B: "\<And>s i j. s < i \<Longrightarrow> j < length (bs @ [True]) \<Longrightarrow>
      covered (i + j) (seek1 s i (bs @ [True])) \<longleftrightarrow> \<not> (bs @ [True]) ! j"
    and C: "\<And>s i k. s < i \<Longrightarrow> s \<le> k \<Longrightarrow> k < i \<Longrightarrow> covered k (seek1 s i (bs @ [True]))"
    using Cons.IH by blast+
  have N: "\<And>i. \<not> covered i (seek0 (Suc i) (bs @ [True]))"
    using seek_struct(1) ivs_from_not_covered by blast
  have 1: "covered (i + j) (seek0 i ((b # bs) @ [True])) \<longleftrightarrow> \<not> ((b # bs) @ [True]) ! j"
    if "j < length ((b # bs) @ [True])" for i j
  proof (cases j)
    case 0
    then show ?thesis using N[of i] C[of i "Suc i" i] by auto
  next
    case (Suc j')
    then show ?thesis using that A[of j' "Suc i"] B[of i "Suc i" j'] by auto
  qed
  have 2: "covered (i + j) (seek1 s i ((b # bs) @ [True])) \<longleftrightarrow> \<not> ((b # bs) @ [True]) ! j"
    if "s < i" "j < length ((b # bs) @ [True])" for s i j
  proof (cases j)
    case 0
    then show ?thesis using that N[of i] C[of s "Suc i" i] by auto
  next
    case (Suc j')
    then show ?thesis using that A[of j' "Suc i"] B[of s "Suc i" j'] by auto
  qed
  have 3: "covered k (seek1 s i ((b # bs) @ [True]))" if "s < i" "s \<le> k" "k < i" for s i k
    using that C[of s "Suc i" k] by auto
  show ?case using 1 2 3 by blast
qed

lemma mask_index_cover:
  assumes "j < length bs"
  shows "covered j (mask_index bs) \<longleftrightarrow> \<not> bs ! j"
proof -
  have "covered (0 + j) (seek0 0 (bs @ [True])) \<longleftrightarrow> \<not> (bs @ [True]) ! j"
    using seek_cover_aux[of bs] assms by (metis length_append_singleton less_Suc_eq)
  then show ?thesis using assms by (simp add: mask_index_seek nth_append)
qed

lemma mask_index_struct: "ivs_from 0 (Suc (length bs)) (mask_index bs)"
  using seek_struct(1)[of 0 "bs @ [True]"] by (simp add: mask_index_seek)

lemma ivs_from_mem:
  "ivs_from i n ivs \<Longrightarrow> iv \<in> set ivs \<Longrightarrow> \<exists>lo hi. iv = [lo, hi] \<and> i \<le> lo \<and> lo < hi \<and> hi < n"
  by (simp add: ivs_from_def)

lemma ivs_from_nth:
  assumes "ivs_from i n ivs" "a < b" "b < length ivs"
  shows "ivs ! a ! 1 < ivs ! b ! 0"
  using assms by (simp add: ivs_from_def sorted_wrt_iff_nth_less)

text \<open>two intervals of a sorted list sharing (or touching at) a position coincide\<close>
lemma ivs_from_disjoint:
  assumes "ivs_from i n ivs" "[lo, hi] \<in> set ivs" "[lo', hi'] \<in> set ivs" "lo \<le> hi'" "lo' \<le> hi"
  shows "lo = lo' \<and> hi = hi'"
proof -
  obtain a b where a: "a < length ivs" "ivs ! a = [lo, hi]" and b: "b < length ivs" "ivs ! b = [lo', hi']"
    using assms(2,3) by (metis in_set_conv_nth)
  have "\<not> a < b" using ivs_from_nth[OF assms(1), of a b] a b assms(5) by auto
  moreover have "\<not> b < a" using ivs_from_nth[OF assms(1), of b a] a b assms(4) by auto
  ultimately have "a = b" by simp
  then show ?thesis using a b by simp
qed

lemma mask_index_is_run:
  assumes "[lo, hi] \<in> set (mask_index bs)"
  shows "is_run bs lo hi"
proof -
  note S = mask_index_struct[of bs]
  have lh: "lo < hi" "hi \<le> length bs" using S assms by (fastforce simp: ivs_from_def)+
  have c: "covered j (mask_index bs)" if "lo \<le> j" "j < hi" for j
    using assms that by (auto simp: covered_iff intro!: bexI[of _ "[lo, hi]"])
  have f: "\<not> bs ! j" if "lo \<le> j" "j < hi" for j
    using c[OF that] mask_index_cover[of j bs] that lh by simp
  have nc: "\<not> covered j (mask_index bs)" if "j = hi \<or> Suc j = lo" for j
  proof
    assume "covered j (mask_index bs)"
    then obtain iv where iv: "iv \<in> set (mask_index bs)" "iv ! 0 \<le> j" "j < iv ! 1"
      by (auto simp: covered_iff)
    then obtain lo' hi' where iv': "iv = [lo', hi']" using S by (auto simp: ivs_from_def)
    have "lo = lo' \<and> hi = hi'"
      using ivs_from_disjoint[OF S assms, of lo' hi'] iv iv' that lh by auto
    then show False using iv iv' that by auto
  qed
  have "hi = length bs \<or> bs ! hi"
  proof (cases "hi < length bs")
    case True
    then show ?thesis using nc[of hi] mask_index_cover[of hi bs] by simp
  next
    case False
    then show ?thesis using lh by simp
  qed
  moreover have "lo = 0 \<or> bs ! (lo - 1)"
  proof (cases lo)
    case 0
    then show ?thesis by simp
  next
    case (Suc l)
    then have "l < length bs" using lh by simp
    then show ?thesis using nc[of l] mask_index_cover[of l bs] Suc by simp
  qed
  ultimately show ?thesis using lh f by (simp add: is_run_def)
qed

lemma is_run_lo_le:
  assumes "is_run bs lo hi" "is_run bs lo' hi'" "lo \<le> j" "j < hi" "lo' \<le> j" "j < hi'"
  shows "lo' \<le> lo"
proof (rule ccontr)
  assume "\<not> lo' \<le> lo"
  then have l: "lo < lo'" by simp
  then have "bs ! (lo' - 1)" using assms(2) by (simp add: is_run_def)
  moreover have "lo \<le> lo' - 1 \<and> lo' - 1 < hi" using l assms(4,5) by linarith
  then have "\<not> bs ! (lo' - 1)" using assms(1) by (simp add: is_run_def)
  ultimately show False by simp
qed

lemma is_run_hi_le:
  assumes "is_run bs lo hi" "is_run bs lo' hi'" "lo \<le> j" "j < hi" "lo' \<le> j" "j < hi'"
  shows "hi \<le> hi'"
proof (rule ccontr)
  assume "\<not> hi \<le> hi'"
  then have l: "hi' < hi" by simp
  then have "hi' < length bs" using assms(1) by (simp add: is_run_def)
  then have "bs ! hi'" using assms(2) by (simp add: is_run_def)
  moreover have "lo \<le> hi' \<and> hi' < hi" using l assms(3,6) by linarith
  then have "\<not> bs ! hi'" using assms(1) by (simp add: is_run_def)
  ultimately show False by simp
qed

lemma is_run_unique:
  assumes "is_run bs lo hi" "is_run bs lo' hi'" "lo \<le> j" "j < hi" "lo' \<le> j" "j < hi'"
  shows "lo = lo' \<and> hi = hi'"
  using is_run_lo_le[OF assms] is_run_lo_le[OF assms(2,1,5,6,3,4)]
    is_run_hi_le[OF assms] is_run_hi_le[OF assms(2,1,5,6,3,4)] by simp

lemma is_run_mask_index:
  assumes "is_run bs lo hi"
  shows "[lo, hi] \<in> set (mask_index bs)"
proof -
  have "lo < length bs" "\<not> bs ! lo" using assms by (auto simp: is_run_def)
  then have "covered lo (mask_index bs)" by (simp add: mask_index_cover)
  then obtain iv where iv: "iv \<in> set (mask_index bs)" "iv ! 0 \<le> lo" "lo < iv ! 1"
    by (auto simp: covered_iff)
  then obtain lo' hi' where iv': "iv = [lo', hi']"
    using mask_index_struct[of bs] by (auto simp: ivs_from_def)
  have "is_run bs lo' hi'" using mask_index_is_run iv iv' by simp
  then have "lo = lo' \<and> hi = hi'"
    using is_run_unique[OF assms, of lo' hi' lo] iv iv' assms by (auto simp: is_run_def)
  then show ?thesis using iv iv' by simp
qed

lemma decode_mask_index: "decode (length bs) (mask_index bs) = bs"
proof (rule nth_equalityI)
  show "length (decode (length bs) (mask_index bs)) = length bs" by (simp add: decode_def)
next
  fix i assume "i < length (decode (length bs) (mask_index bs))"
  then have "i < length bs" by (simp add: decode_def)
  then show "decode (length bs) (mask_index bs) ! i = bs ! i"
    by (simp add: decode_def mask_index_cover)
qed

lemma mask_index_all_true:
  assumes "\<forall>b \<in> set bs. b"
  shows "mask_index bs = []"
proof (cases "mask_index bs")
  case Nil
  then show ?thesis .
next
  case (Cons iv ivs)
  then have m: "iv \<in> set (mask_index bs)" by simp
  obtain lo hi where "iv = [lo, hi]"
    using ivs_from_mem[OF mask_index_struct m] by blast
  then have "is_run bs lo hi" using mask_index_is_run m by simp
  then have "lo < length bs" "\<not> bs ! lo" by (simp_all add: is_run_def)
  then show ?thesis using assms nth_mem by blast
qed

lemma mask_index_trailing:
  assumes "bs \<noteq> []" "\<not> last bs"
  shows "mask_index bs \<noteq> [] \<and> last (mask_index bs) ! 1 = length bs"
proof -
  let ?n = "length bs"
  let ?m = "mask_index bs"
  have n: "?n - 1 < ?n" "\<not> bs ! (?n - 1)" using assms by (simp_all add: last_conv_nth)
  then have "covered (?n - 1) ?m" by (simp add: mask_index_cover)
  then obtain iv where iv: "iv \<in> set ?m" "iv ! 0 \<le> ?n - 1" "?n - 1 < iv ! 1"
    unfolding covered_iff by blast
  note S = mask_index_struct[of bs]
  obtain lo hi where iv': "iv = [lo, hi]" "hi < Suc ?n"
    using ivs_from_mem[OF S iv(1)] by blast
  have hi: "hi = ?n" using iv(3) iv' by simp
  have ne: "?m \<noteq> []" using iv(1) by auto
  obtain a where a: "a < length ?m" "?m ! a = iv"
    using iv(1) by (metis in_set_conv_nth)
  let ?l = "length ?m - 1"
  have l: "?l < length ?m" using ne by simp
  have "a = ?l"
  proof (rule ccontr)
    assume "a \<noteq> ?l"
    then have al: "a < ?l" using a(1) by simp
    have lt: "?m ! a ! 1 < ?m ! ?l ! 0"
      using ivs_from_nth[OF S al l] .
    have "?m ! ?l \<in> set ?m" using l nth_mem by blast
    then obtain lo' hi' where "?m ! ?l = [lo', hi']" "lo' < hi'" "hi' < Suc ?n"
      using ivs_from_mem[OF S] by blast
    then show False using lt a(2) iv'(1) hi by simp
  qed
  then show ?thesis using ne a(2) iv'(1) hi by (simp add: last_conv_nth)
qed

text \<open>
  C5. For every boolean sequence \<open>bs\<close>, \<open>mask_index bs\<close> is a list of two-element
  intervals \<open>[lo, hi]\<close>, each a maximal run of false values, every maximal run being in
  the list; the list is in increasing order without overlap (each interval ends before the
  next starts); an index is inside an interval exactly when the sequence is false
  there, so decoding the intervals gives the sequence back; the empty and the all-true
  sequence give the empty list; a trailing run ends at the sentinel position
  \<open>length bs\<close>.
\<close>

theorem mask_index_runs:
  "(\<forall>iv \<in> set (mask_index bs). \<exists>lo hi. iv = [lo, hi] \<and> is_run bs lo hi) \<and>
   (\<forall>lo hi. is_run bs lo hi \<longrightarrow> [lo, hi] \<in> set (mask_index bs)) \<and>
   sorted_wrt (\<lambda>a b. a ! 1 < b ! 0) (mask_index bs) \<and>
   (\<forall>j < length bs. covered j (mask_index bs) \<longleftrightarrow> \<not> bs ! j) \<and>
   decode (length bs) (mask_index bs) = bs \<and>
   mask_index [] = [] \<and>
   ((\<forall>b \<in> set bs. b) \<longrightarrow> mask_index bs = []) \<and>
   (bs \<noteq> [] \<and> \<not> last bs \<longrightarrow>
      mask_index bs \<noteq> [] \<and> last (mask_index bs) ! 1 = length bs)"
proof -
  note S = mask_index_struct[of bs]
  have 1: "\<forall>iv \<in> set (mask_index bs). \<exists>lo hi. iv = [lo, hi] \<and> is_run bs lo hi"
  proof
    fix iv assume m: "iv \<in> set (mask_index bs)"
    then obtain lo hi where "iv = [lo, hi]" using ivs_from_mem[OF S] by blast
    then show "\<exists>lo hi. iv = [lo, hi] \<and> is_run bs lo hi"
      using m mask_index_is_run by blast
  qed
  have 2: "\<forall>lo hi. is_run bs lo hi \<longrightarrow> [lo, hi] \<in> set (mask_index bs)"
    using is_run_mask_index by blast
  have 3: "sorted_wrt (\<lambda>a b. a ! 1 < b ! 0) (mask_index bs)"
    using S by (simp add: ivs_from_def)
  have 4: "\<forall>j < length bs. covered j (mask_index bs) \<longleftrightarrow> \<not> bs ! j"
    using mask_index_cover by blast
  have 5: "mask_index [] = []"
    by (simp add: mask_index_def)
  show ?thesis
    using 1 2 3 4 5 decode_mask_index[of bs] mask_index_all_true[of bs]
      mask_index_trailing[of bs] by blast
qed

theorem mask_index_runs_witness:
  "mask_index [True, True, False, False, False, True, False, True] = [[2, 5], [6, 7]] \<and>
   is_run [True, True, False, False, False, True, False, True] 2 5 \<and>
   is_run [True, True, False, False, False, True, False, True] 6 7 \<and>
   decode 8 [[2, 5], [6, 7]] = [True, True, False, False, False, True, False, True] \<and>
   mask_index [False, False, False] = [[0, 3]] \<and>
   last (mask_index [False, False, False]) ! 1 = 3 \<and>
   mask_index [True, True] = [] \<and>
   mask_index [] = []"
proof -
  let ?bs = "[True, True, False, False, False, True, False, True]"
  have e1: "mask_index ?bs = [[2, 5], [6, 7]]"
    by (simp add: mask_index_def)
  have e2: "mask_index [False, False, False] = [[0, 3]]"
    by (simp add: mask_index_def)
  have e3: "\<forall>b \<in> set [True, True]. b" by simp
  have r: "is_run ?bs 2 5 \<and> is_run ?bs 6 7"
    using mask_index_runs[of ?bs] unfolding e1 by fastforce
  have d0: "decode (length ?bs) (mask_index ?bs) = ?bs"
    using mask_index_runs[of ?bs] by blast
  have len: "length ?bs = 8" by simp
  have d: "decode 8 [[2, 5], [6, 7]] = ?bs"
    using d0 unfolding e1 len .
  have t: "last (mask_index [False, False, False]) ! 1 = length [False, False, False]"
    using mask_index_runs[of "[False, False, False]"] by simp
  have a: "mask_index [True, True] = []"
    using mask_index_runs[of "[True, True]"] e3 by blast
  show ?thesis using e1 e2 r d t a mask_index_runs[of "[]"] by simp
qed

section \<open>Properties of \<open>refine\<close>\<close>

declare refine_loop.simps [simp del]

lemma refine_loop_unfold:
  "refine_loop fit rnd td mi s k dx ev =
     (if k \<le> mi then
        (case classify rnd s of
           Inl e \<Rightarrow> Inl e
         | Inr (c, s1) \<Rightarrow>
             (case dist_xor c (as_bool (self_w s1)) of
                Inl e \<Rightarrow> Inl e
              | Inr d \<Rightarrow>
                  if d \<le> td then
                    Inr (\<lparr>status = 0, message = ''Converged'', niter = k, dfinal = d\<rparr>,
                         s1, Suc ev)
                  else
                    (case replace_mask fit s1 (as_float c) of
                       Inl e \<Rightarrow> Inl e
                     | Inr s2 \<Rightarrow> refine_loop fit rnd td mi s2 (k + 1) d (Suc ev))))
      else
        Inr (\<lparr>status = 1, message = ''Maximum iteration limit exceeded'', niter = k,
              dfinal = dx\<rparr>, s, ev))"
  by (subst refine_loop.simps) (simp add: classify_def)

lemma rejects_Suc:
  assumes "commit fit rnd s = Inr s2"
  shows "rejects fit rnd td s (Suc i) \<longleftrightarrow> rejects fit rnd td s2 i"
  using assms by (simp add: rejects_def)

lemma rejects_0: "rejects fit rnd td s 0 \<longleftrightarrow> (\<exists>d. cand_dist rnd s = Inr d \<and> td < d)"
  by (simp add: rejects_def)

lemma loop_converged:
  "nat (mi + 1 - k) = m \<Longrightarrow> refine_loop fit rnd td mi s k dx ev = Inr (res, s', n) \<Longrightarrow>
   status res = 0 \<Longrightarrow>
   \<exists>j s_j c. commits fit rnd j s = Inr s_j \<and> classify rnd s_j = Inr (c, s') \<and>
     dist_xor c (as_bool (self_w s')) = Inr (dfinal res) \<and> dfinal res \<le> td \<and>
     niter res = k + int j \<and> niter res \<le> mi \<and> n = ev + j + 1 \<and>
     message res = ''Converged'' \<and> (\<forall>i<j. rejects fit rnd td s i)"
proof (induction m arbitrary: s k dx ev)
  case 0
  then have "\<not> k \<le> mi" by simp
  then show ?case using 0(2,3) by (auto simp: refine_loop_unfold)
next
  case (Suc m)
  then have k: "k \<le> mi" by simp
  from Suc.prems(2) k obtain c s1 where cl: "classify rnd s = Inr (c, s1)"
    by (auto simp: refine_loop_unfold split: sum.splits)
  from Suc.prems(2) k cl obtain d where d: "dist_xor c (as_bool (self_w s1)) = Inr d"
    by (auto simp: refine_loop_unfold split: sum.splits)
  show ?case
  proof (cases "d \<le> td")
    case True
    then have "res = \<lparr>status = 0, message = ''Converged'', niter = k, dfinal = d\<rparr>"
      "s' = s1" "n = Suc ev"
      using Suc.prems(2) k cl d by (simp_all add: refine_loop_unfold)
    then show ?thesis
      using cl d True k by (intro exI[of _ 0] exI[of _ s] exI[of _ c]) simp
  next
    case False
    from Suc.prems(2) k cl d False obtain s2 where
      s2: "replace_mask fit s1 (as_float c) = Inr s2"
      and rec: "refine_loop fit rnd td mi s2 (k + 1) d (Suc ev) = Inr (res, s', n)"
      by (auto simp: refine_loop_unfold split: sum.splits)
    have cm: "commit fit rnd s = Inr s2" using cl s2 by (simp add: commit_def)
    have r0: "rejects fit rnd td s 0" using cl d False by (simp add: rejects_0 cand_dist_def)
    have m: "nat (mi + 1 - (k + 1)) = m" using Suc.prems(1) by simp
    from Suc.IH[OF m rec Suc.prems(3)] obtain j s_j c' where
      j: "commits fit rnd j s2 = Inr s_j" "classify rnd s_j = Inr (c', s')"
        "dist_xor c' (as_bool (self_w s')) = Inr (dfinal res)" "dfinal res \<le> td"
        "niter res = k + 1 + int j" "niter res \<le> mi" "n = Suc ev + j + 1"
        "message res = ''Converged''" "\<forall>i<j. rejects fit rnd td s2 i"
      by blast
    have "\<forall>i<Suc j. rejects fit rnd td s i"
    proof (intro allI impI)
      fix i assume "i < Suc j"
      then show "rejects fit rnd td s i"
        using r0 j(9) rejects_Suc[OF cm] by (cases i) auto
    qed
    then show ?thesis
      using j cm by (intro exI[of _ "Suc j"] exI[of _ s_j] exI[of _ c']) simp
  qed
qed


lemma commits_snoc:
  "commits fit rnd (Suc j) s =
     (case commits fit rnd j s of Inl e \<Rightarrow> Inl e | Inr s' \<Rightarrow> commit fit rnd s')"
proof (induction j arbitrary: s)
  case 0
  show ?case by (simp split: sum.splits)
next
  case (Suc j)
  show ?case
  proof (cases "commit fit rnd s")
    case (Inl e)
    then show ?thesis by simp
  next
    case (Inr s2)
    then show ?thesis using Suc.IH[of s2] by simp
  qed
qed

lemma loop_exceeded:
  "nat (mi + 1 - k) = m \<Longrightarrow> refine_loop fit rnd td mi s k dx ev = Inr (res, s', n) \<Longrightarrow>
   status res \<noteq> 0 \<Longrightarrow>
   status res = 1 \<and> message res = ''Maximum iteration limit exceeded'' \<and>
   niter res = k + int m \<and> commits fit rnd m s = Inr s' \<and> n = ev + m \<and>
   (\<forall>i<m. rejects fit rnd td s i) \<and>
   (if m = 0 then dfinal res = dx
    else \<exists>s_l. commits fit rnd (m - 1) s = Inr s_l \<and> cand_dist rnd s_l = Inr (dfinal res))"
proof (induction m arbitrary: s k dx ev)
  case 0
  then have "\<not> k \<le> mi" by simp
  then show ?case using 0(2,3) by (auto simp: refine_loop_unfold)
next
  case (Suc m)
  then have k: "k \<le> mi" by simp
  from Suc.prems(2) k obtain c s1 where cl: "classify rnd s = Inr (c, s1)"
    by (auto simp: refine_loop_unfold split: sum.splits)
  from Suc.prems(2) k cl obtain d where d: "dist_xor c (as_bool (self_w s1)) = Inr d"
    by (auto simp: refine_loop_unfold split: sum.splits)
  have nd: "\<not> d \<le> td"
    using Suc.prems(2,3) k cl d by (auto simp: refine_loop_unfold split: if_splits)
  from Suc.prems(2) k cl d nd obtain s2 where
    s2: "replace_mask fit s1 (as_float c) = Inr s2"
    and rec: "refine_loop fit rnd td mi s2 (k + 1) d (Suc ev) = Inr (res, s', n)"
    by (auto simp: refine_loop_unfold split: sum.splits)
  have cm: "commit fit rnd s = Inr s2" using cl s2 by (simp add: commit_def)
  have cd: "cand_dist rnd s = Inr d" using cl d by (simp add: cand_dist_def)
  have r0: "rejects fit rnd td s 0" using cd nd by (simp add: rejects_0)
  have m: "nat (mi + 1 - (k + 1)) = m" using Suc.prems(1) by simp
  note IH = Suc.IH[OF m rec Suc.prems(3)]
  have a: "\<forall>i<Suc m. rejects fit rnd td s i"
  proof (intro allI impI)
    fix i assume "i < Suc m"
    then show "rejects fit rnd td s i"
      using r0 IH rejects_Suc[OF cm] by (cases i) auto
  qed
  have l: "\<exists>s_l. commits fit rnd (Suc m - 1) s = Inr s_l \<and> cand_dist rnd s_l = Inr (dfinal res)"
  proof (cases m)
    case 0
    then show ?thesis using IH cd by simp
  next
    case (Suc m')
    then obtain s_l where "commits fit rnd m' s2 = Inr s_l" "cand_dist rnd s_l = Inr (dfinal res)"
      using IH by auto
    then show ?thesis using Suc cm by simp
  qed
  show ?case using IH a l cm by simp
qed


lemma update_stats_frame:
  "update_stats rnd s = Inr s1 \<Longrightarrow> s1 = s\<lparr>rmad := rmad s1, stats_dirty := False\<rparr>"
  by (auto simp: update_stats_def Let_def split: sum.splits)

lemma inlier_predicate_frame:
  assumes "inlier_predicate rnd s t y ub lb = Inr (c, s1)"
  shows "s1 = s\<lparr>rmad := rmad s1, stats_dirty := False\<rparr>"
proof (cases "stats_dirty s")
  case True
  then have "update_stats rnd s = Inr s1"
    using assms by (auto simp: inlier_predicate_def Let_def split: sum.splits option.splits)
  then show ?thesis by (rule update_stats_frame)
next
  case False
  then have "s1 = s"
    using assms by (auto simp: inlier_predicate_def Let_def split: sum.splits option.splits)
  then show ?thesis using False by simp
qed

lemma inlier_predicate_idem:
  assumes "inlier_predicate rnd s t y ub lb = Inr (c, s1)"
  shows "inlier_predicate rnd s1 t y ub lb = Inr (c, s1)"
proof -
  have f: "s1 = s\<lparr>rmad := rmad s1, stats_dirty := False\<rparr>"
    using assms by (rule inlier_predicate_frame)
  then have nd: "\<not> stats_dirty s1" by (metis SplineModel.select_convs(8) SplineModel.surjective SplineModel.update_convs(8))
  have "(if stats_dirty s then update_stats rnd s else Inr s) = Inr s1"
    using assms by (auto simp: inlier_predicate_def Let_def split: sum.splits option.splits)
  then show ?thesis
    using assms nd by (simp add: inlier_predicate_def)
qed

lemma classify_frame:
  "classify rnd s = Inr (c, s1) \<Longrightarrow> s1 = s\<lparr>rmad := rmad s1, stats_dirty := False\<rparr>"
  unfolding classify_def by (rule inlier_predicate_frame)

lemma classify_idem:
  assumes "classify rnd s = Inr (c, s1)"
  shows "classify rnd s1 = Inr (c, s1)"
proof -
  have f: "s1 = s\<lparr>rmad := rmad s1, stats_dirty := False\<rparr>"
    using assms by (rule classify_frame)
  have "self_t s1 = self_t s" "self_y s1 = self_y s"
    by (subst f, simp)+
  then show ?thesis
    using inlier_predicate_idem[of rnd s "self_t s" "self_y s" 4 "- 10" c s1] assms
    by (simp add: classify_def)
qed


lemma loop_converges:
  "commits fit rnd j s = Inr s_j \<Longrightarrow> classify rnd s_j = Inr (c, s') \<Longrightarrow>
   dist_xor c (as_bool (self_w s')) = Inr d \<Longrightarrow> d \<le> td \<Longrightarrow>
   \<forall>i<j. rejects fit rnd td s i \<Longrightarrow> k + int j \<le> mi \<Longrightarrow>
   refine_loop fit rnd td mi s k dx ev =
     Inr (\<lparr>status = 0, message = ''Converged'', niter = k + int j, dfinal = d\<rparr>, s', ev + j + 1)"
proof (induction j arbitrary: s k dx ev)
  case 0
  then show ?case by (simp add: refine_loop_unfold)
next
  case (Suc j)
  from Suc.prems(1) obtain s2 where cm: "commit fit rnd s = Inr s2"
    and cs: "commits fit rnd j s2 = Inr s_j"
    by (auto split: sum.splits)
  from cm obtain c0 s1 where cl: "classify rnd s = Inr (c0, s1)"
    and rm: "replace_mask fit s1 (as_float c0) = Inr s2"
    by (auto simp: commit_def split: sum.splits)
  have "rejects fit rnd td s 0" using Suc.prems(5) by simp
  then obtain d0 where d0: "dist_xor c0 (as_bool (self_w s1)) = Inr d0" "td < d0"
    using cl by (auto simp: rejects_0 cand_dist_def)
  have r: "\<forall>i<j. rejects fit rnd td s2 i"
    using Suc.prems(5) rejects_Suc[OF cm] by auto
  have k: "k + 1 + int j \<le> mi" "k \<le> mi" using Suc.prems(6) by simp_all
  have "refine_loop fit rnd td mi s2 (k + 1) d0 (Suc ev) =
     Inr (\<lparr>status = 0, message = ''Converged'', niter = k + 1 + int j, dfinal = d\<rparr>, s',
       Suc ev + j + 1)"
    using Suc.IH[OF cs Suc.prems(2,3,4) r k(1)] .
  then show ?case
    using cl d0 rm k(2) by (simp add: refine_loop_unfold[of fit rnd td mi s k] add.assoc)
qed

lemma loop_exceeds:
  "nat (mi + 1 - k) = m \<Longrightarrow> \<forall>i<m. rejects fit rnd td s i \<Longrightarrow>
   commits fit rnd m s = Inr s' \<Longrightarrow>
   \<exists>df. refine_loop fit rnd td mi s k dx ev =
     Inr (\<lparr>status = 1, message = ''Maximum iteration limit exceeded'', niter = k + int m,
           dfinal = df\<rparr>, s', ev + m)"
proof (induction m arbitrary: s k dx ev)
  case 0
  then have "\<not> k \<le> mi" by simp
  then show ?case using 0 by (simp add: refine_loop_unfold)
next
  case (Suc m)
  then have k: "k \<le> mi" by simp
  from Suc.prems(3) obtain s2 where cm: "commit fit rnd s = Inr s2"
    and cs: "commits fit rnd m s2 = Inr s'"
    by (auto split: sum.splits)
  from cm obtain c0 s1 where cl: "classify rnd s = Inr (c0, s1)"
    and rm: "replace_mask fit s1 (as_float c0) = Inr s2"
    by (auto simp: commit_def split: sum.splits)
  have "rejects fit rnd td s 0" using Suc.prems(2) by simp
  then obtain d0 where d0: "dist_xor c0 (as_bool (self_w s1)) = Inr d0" "td < d0"
    using cl by (auto simp: rejects_0 cand_dist_def)
  have r: "\<forall>i<m. rejects fit rnd td s2 i"
    using Suc.prems(2) rejects_Suc[OF cm] by auto
  have m: "nat (mi + 1 - (k + 1)) = m" using Suc.prems(1) by simp
  obtain df where "refine_loop fit rnd td mi s2 (k + 1) d0 (Suc ev) =
     Inr (\<lparr>status = 1, message = ''Maximum iteration limit exceeded'', niter = k + 1 + int m,
           dfinal = df\<rparr>, s', Suc ev + m)"
    using Suc.IH[OF m r cs] by blast
  then show ?case
    using cl d0 rm k by (simp add: refine_loop_unfold[of fit rnd td mi s k] add.assoc)
qed


lemma refine_loop_start:
  "refine fit rnd s td mi = Inr r \<Longrightarrow> 0 \<le> td \<and> 0 < mi \<and> refine_loop fit rnd td mi s 0 0 0 = Inr r"
  by (auto simp: refine_def split: if_splits)

subsection \<open>The sample model, evaluated\<close>

lemmas refine_eval_defs = refine_def classify_def inlier_predicate_def update_stats_def
  bool_index_def as_bool_def as_float_def nanmedian_def broadcast2_def in_band_def dist_xor_def
  replace_mask_def flat_fit_def exact_def sample_model_def Let_def

lemma sample_model_init:
  "SplineModel_init flat_fit [0, 1, 2, 3, 4, 5] [1, 1, 1, 6, 6, 30] 23 (Some [5 / 2]) None
     Map.empty = Inr sample_model"
  by (simp add: SplineModel_init_def replace_mask_def flat_fit_def sample_model_def)

lemma sample_classify:
  "classify exact sample_model =
     Inr ([True, True, True, True, True, False],
          sample_model\<lparr>rmad := Some (Fin (7 / 2)), stats_dirty := False\<rparr>)"
  by (simp add: refine_eval_defs)

lemma sample_refine_1_50:
  "refine flat_fit exact sample_model 1 50 =
     Inr (\<lparr>status = 0, message = ''Converged'', niter = 0, dfinal = 1\<rparr>,
          sample_model\<lparr>rmad := Some (Fin (7 / 2)), stats_dirty := False\<rparr>, 1)"
  by (simp add: refine_eval_defs refine_loop.simps)

lemma sample_refine_0_50:
  "refine flat_fit exact sample_model 0 50 =
     Inr (\<lparr>status = 0, message = ''Converged'', niter = 2, dfinal = 0\<rparr>,
          sample_model\<lparr>self_w := [1, 1, 1, 0, 0, 0], rmad := Some (Fin 1),
                        stats_dirty := False\<rparr>, 3)"
  by (simp add: refine_eval_defs refine_loop.simps)

lemma sample_refine_0_1:
  "refine flat_fit exact sample_model 0 1 =
     Inr (\<lparr>status = 1, message = ''Maximum iteration limit exceeded'', niter = 2, dfinal = 2\<rparr>,
          sample_model\<lparr>self_w := [1, 1, 1, 0, 0, 0], rmad := Some (Fin 1)\<rparr>, 2)"
  by (simp add: refine_eval_defs refine_loop.simps)

subsection \<open>The claims about \<open>refine\<close>\<close>

text \<open>
  C3. When \<open>refine\<close> returns with status 0 (Converged) after \<open>niter\<close> iterations, the
  instance is the one left by the \<open>niter\<close> committed iterations, \<open>s_k\<close>, on which the
  final classification ran: the candidate \<open>c\<close> that passed the distance test is not
  committed.  The weight mask, the fitted spline, the predictions, the knots, the series
  and the fit configuration are those of \<open>s_k\<close>; only the cached residual statistic and
  its validity flag are those the final classification left.  With \<open>niter = 0\<close> that is
  the instance before the call; otherwise the mask is the candidate that the previous
  iteration committed through \<open>replace_mask\<close>.
\<close>

theorem refine_converged_discards:
  assumes "refine fit rnd s td mi = Inr (res, s', n)" "status res = 0"
  shows "\<exists>s_k c. commits fit rnd (nat (niter res)) s = Inr s_k \<and>
           classify rnd s_k = Inr (c, s') \<and>
           dist_xor c (as_bool (self_w s')) = Inr (dfinal res) \<and> dfinal res \<le> td \<and>
           s' = s_k\<lparr>rmad := rmad s', stats_dirty := False\<rparr> \<and>
           self_w s' = self_w s_k \<and> spr s' = spr s_k \<and> self_pred s' = self_pred s_k \<and>
           self_knots s' = self_knots s_k \<and> self_t s' = self_t s_k \<and> self_y s' = self_y s_k \<and>
           kwargs_save s' = kwargs_save s_k \<and>
           (niter res = 0 \<longrightarrow> s_k = s) \<and>
           (0 < niter res \<longrightarrow>
              (\<exists>s_p c_p s_q. commits fit rnd (nat (niter res) - 1) s = Inr s_p \<and>
                 classify rnd s_p = Inr (c_p, s_q) \<and>
                 replace_mask fit s_q (as_float c_p) = Inr s_k \<and> self_w s' = as_float c_p))"
proof -
  have L: "refine_loop fit rnd td mi s 0 0 0 = Inr (res, s', n)"
    using refine_loop_start[OF assms(1)] by simp
  have m: "nat (mi + 1 - 0) = nat (mi + 1)" by simp
  from loop_converged[OF m L assms(2)] obtain j s_j c where
    j: "commits fit rnd j s = Inr s_j" "classify rnd s_j = Inr (c, s')"
      "dist_xor c (as_bool (self_w s')) = Inr (dfinal res)" "dfinal res \<le> td"
      "niter res = 0 + int j"
    by blast
  have nj: "nat (niter res) = j" using j(5) by simp
  note f = classify_frame[OF j(2)]
  have eqs: "self_w s' = self_w s_j" "spr s' = spr s_j" "self_pred s' = self_pred s_j"
    "self_knots s' = self_knots s_j" "self_t s' = self_t s_j" "self_y s' = self_y s_j"
    "kwargs_save s' = kwargs_save s_j"
    by (subst f, simp)+
  have z: "niter res = 0 \<longrightarrow> s_j = s" using j(1,5) by auto
  have p: "0 < niter res \<longrightarrow>
              (\<exists>s_p c_p s_q. commits fit rnd (j - 1) s = Inr s_p \<and>
                 classify rnd s_p = Inr (c_p, s_q) \<and>
                 replace_mask fit s_q (as_float c_p) = Inr s_j \<and> self_w s' = as_float c_p)"
  proof
    assume "0 < niter res"
    then obtain j' where j': "j = Suc j'" using j(5) by (cases j) auto
    then obtain s_p where sp: "commits fit rnd j' s = Inr s_p" "commit fit rnd s_p = Inr s_j"
      using j(1) by (auto simp: commits_snoc simp del: commits.simps split: sum.splits)
    then obtain c_p s_q where q: "classify rnd s_p = Inr (c_p, s_q)"
      "replace_mask fit s_q (as_float c_p) = Inr s_j"
      by (auto simp: commit_def split: sum.splits)
    have "self_w s_j = as_float c_p"
      using q(2) by (auto simp: replace_mask_def split: if_splits sum.splits)
    then show "\<exists>s_p c_p s_q. commits fit rnd (j - 1) s = Inr s_p \<and>
                 classify rnd s_p = Inr (c_p, s_q) \<and>
                 replace_mask fit s_q (as_float c_p) = Inr s_j \<and> self_w s' = as_float c_p"
      using sp(1) q j' eqs(1) by auto
  qed
  show ?thesis
    unfolding nj using j(1,2,3,4) f eqs z p by blast
qed

theorem refine_converged_discards_witness:
  "\<exists>res s' n s_k c.
     refine flat_fit exact sample_model 1 50 = Inr (res, s', n) \<and> status res = 0 \<and>
     niter res = 0 \<and> commits flat_fit exact (nat (niter res)) sample_model = Inr s_k \<and>
     classify exact s_k = Inr (c, s') \<and> self_w s' = self_w s_k \<and>
     c = [True, True, True, True, True, False] \<and> as_float c \<noteq> self_w s'"
proof -
  define res where "res = \<lparr>status = 0, message = ''Converged'', niter = 0, dfinal = 1\<rparr>"
  define s' where "s' = sample_model\<lparr>rmad := Some (Fin (7 / 2)), stats_dirty := False\<rparr>"
  have r: "refine flat_fit exact sample_model 1 50 = Inr (res, s', 1)"
    unfolding res_def s'_def by (rule sample_refine_1_50)
  have st: "status res = 0" and ni: "niter res = 0" by (simp_all add: res_def)
  from refine_converged_discards[OF r st] obtain s_k c where
    k: "commits flat_fit exact (nat (niter res)) sample_model = Inr s_k"
       "classify exact s_k = Inr (c, s')" "self_w s' = self_w s_k"
    by (elim exE conjE)
  have sk: "s_k = sample_model" using k(1) ni by simp
  have c: "c = [True, True, True, True, True, False]"
    using k(2) unfolding sk sample_classify by simp
  have w: "self_w s' = [1, 1, 1, 1, 1, 1]"
    by (simp add: s'_def sample_model_def)
  have ne: "as_float c \<noteq> self_w s'"
    unfolding c w by (simp add: as_float_def)
  from r st ni k c ne show ?thesis by blast
qed

text \<open>
  C4. For \<open>target_d \<ge> 0\<close> and \<open>maxiter > 0\<close>: \<open>refine\<close> returns with status 0
  (Converged), \<open>niter = k\<close> and \<open>dfinal = d\<close> exactly when iteration \<open>k \<le> maxiter\<close> is
  reached (every earlier iteration failed the distance test and was committed) and the
  distance \<open>d\<close> between its candidate and the committed mask satisfies \<open>d \<le> target_d\<close>;
  it has then classified \<open>k + 1\<close> times.  It returns with another status exactly when
  the iterations \<open>0 .. maxiter\<close> all fail the test; the status is then 1, \<open>niter\<close> is
  \<open>maxiter + 1\<close>, \<open>dfinal\<close> is the last distance computed, and exactly \<open>maxiter + 1\<close>
  classifications have been evaluated.
\<close>

theorem refine_stops:
  assumes "0 \<le> td" "0 < mi"
  shows
   "(refine fit rnd s td mi = Inr (res, s', n) \<and> status res = 0 \<longleftrightarrow>
      (\<exists>k s_k c d. res = \<lparr>status = 0, message = ''Converged'', niter = int k, dfinal = d\<rparr> \<and>
         int k \<le> mi \<and> (\<forall>i<k. rejects fit rnd td s i) \<and> commits fit rnd k s = Inr s_k \<and>
         classify rnd s_k = Inr (c, s') \<and> dist_xor c (as_bool (self_w s')) = Inr d \<and>
         d \<le> td \<and> n = k + 1)) \<and>
    (refine fit rnd s td mi = Inr (res, s', n) \<and> status res \<noteq> 0 \<longleftrightarrow>
      (\<exists>df. res = \<lparr>status = 1, message = ''Maximum iteration limit exceeded'',
                   niter = mi + 1, dfinal = df\<rparr> \<and>
         (\<forall>i<nat mi + 1. rejects fit rnd td s i) \<and> commits fit rnd (nat mi + 1) s = Inr s' \<and>
         (\<exists>s_l. commits fit rnd (nat mi) s = Inr s_l \<and> cand_dist rnd s_l = Inr df) \<and>
         n = nat mi + 1))"
proof -
  have R: "refine fit rnd s td mi = refine_loop fit rnd td mi s 0 0 0"
    using assms by (simp add: refine_def)
  have m: "nat (mi + 1 - 0) = nat mi + 1" using assms by simp
  have A1: "\<exists>k s_k c d. res = \<lparr>status = 0, message = ''Converged'', niter = int k, dfinal = d\<rparr> \<and>
         int k \<le> mi \<and> (\<forall>i<k. rejects fit rnd td s i) \<and> commits fit rnd k s = Inr s_k \<and>
         classify rnd s_k = Inr (c, s') \<and> dist_xor c (as_bool (self_w s')) = Inr d \<and>
         d \<le> td \<and> n = k + 1"
    if "refine fit rnd s td mi = Inr (res, s', n)" "status res = 0"
  proof -
    from loop_converged[OF m that(1)[unfolded R] that(2)] obtain j s_j c where
      j: "commits fit rnd j s = Inr s_j" "classify rnd s_j = Inr (c, s')"
        "dist_xor c (as_bool (self_w s')) = Inr (dfinal res)" "dfinal res \<le> td"
        "niter res = 0 + int j" "niter res \<le> mi" "n = 0 + j + 1"
        "message res = ''Converged''" "\<forall>i<j. rejects fit rnd td s i"
      by blast
    have "res = \<lparr>status = 0, message = ''Converged'', niter = int j, dfinal = dfinal res\<rparr>"
      using that(2) j(5,8) by simp
    then show ?thesis using j by (intro exI[of _ j] exI[of _ s_j] exI[of _ c] exI[of _ "dfinal res"]) simp
  qed
  have A2: "refine fit rnd s td mi = Inr (res, s', n) \<and> status res = 0"
    if "res = \<lparr>status = 0, message = ''Converged'', niter = int k, dfinal = d\<rparr>"
       "int k \<le> mi" "\<forall>i<k. rejects fit rnd td s i" "commits fit rnd k s = Inr s_k"
       "classify rnd s_k = Inr (c, s')" "dist_xor c (as_bool (self_w s')) = Inr d"
       "d \<le> td" "n = k + 1" for k s_k c d
    using loop_converges[OF that(4,5,6,7,3), of 0 mi 0 0] that(1,2,8) by (simp add: R)
  have B1: "\<exists>df. res = \<lparr>status = 1, message = ''Maximum iteration limit exceeded'',
                   niter = mi + 1, dfinal = df\<rparr> \<and>
         (\<forall>i<nat mi + 1. rejects fit rnd td s i) \<and> commits fit rnd (nat mi + 1) s = Inr s' \<and>
         (\<exists>s_l. commits fit rnd (nat mi) s = Inr s_l \<and> cand_dist rnd s_l = Inr df) \<and>
         n = nat mi + 1"
    if "refine fit rnd s td mi = Inr (res, s', n)" "status res \<noteq> 0"
  proof -
    note E = loop_exceeded[OF m that(1)[unfolded R] that(2)]
    have "res = \<lparr>status = 1, message = ''Maximum iteration limit exceeded'',
                   niter = mi + 1, dfinal = dfinal res\<rparr>"
      using E assms by simp
    then show ?thesis using E by (intro exI[of _ "dfinal res"]) simp
  qed
  have B2: "refine fit rnd s td mi = Inr (res, s', n) \<and> status res \<noteq> 0"
    if h: "res = \<lparr>status = 1, message = ''Maximum iteration limit exceeded'',
                   niter = mi + 1, dfinal = df\<rparr>"
       "\<forall>i<nat mi + 1. rejects fit rnd td s i" "commits fit rnd (nat mi + 1) s = Inr s'"
       "commits fit rnd (nat mi) s = Inr s_l" "cand_dist rnd s_l = Inr df"
       "n = nat mi + 1" for df s_l
  proof -
    obtain df' where d: "refine_loop fit rnd td mi s 0 0 0 =
       Inr (\<lparr>status = 1, message = ''Maximum iteration limit exceeded'',
             niter = 0 + int (nat mi + 1), dfinal = df'\<rparr>, s', 0 + (nat mi + 1))"
      using loop_exceeds[OF m h(2,3), of 0 0] by blast
    have "\<exists>s_l. commits fit rnd (nat mi + 1 - 1) s = Inr s_l \<and> cand_dist rnd s_l = Inr df'"
      using loop_exceeded[OF m d] by simp
    then have "df' = df" using h(4,5) by simp
    then show ?thesis using d h(1,6) assms by (simp add: R)
  qed
  show ?thesis using A1 A2 B1 B2 by blast
qed

theorem refine_stops_witness:
  "(\<exists>res s' n. refine flat_fit exact sample_model 0 50 = Inr (res, s', n) \<and> status res = 0 \<and>
      niter res = 2 \<and> dfinal res = 0 \<and> n = 3 \<and>
      rejects flat_fit exact 0 sample_model 0 \<and> rejects flat_fit exact 0 sample_model 1) \<and>
   (\<exists>res s' n. refine flat_fit exact sample_model 0 1 = Inr (res, s', n) \<and> status res = 1 \<and>
      niter res = 2 \<and> n = 2 \<and>
      rejects flat_fit exact 0 sample_model 0 \<and> rejects flat_fit exact 0 sample_model 1)"
proof -
  let ?r50 = "\<lparr>status = 0, message = ''Converged'', niter = 2, dfinal = 0\<rparr>"
  let ?s50 = "sample_model\<lparr>self_w := [1, 1, 1, 0, 0, 0], rmad := Some (Fin 1),
                stats_dirty := False\<rparr>"
  let ?r1 = "\<lparr>status = 1, message = ''Maximum iteration limit exceeded'', niter = 2, dfinal = 2\<rparr>"
  let ?s1 = "sample_model\<lparr>self_w := [1, 1, 1, 0, 0, 0], rmad := Some (Fin 1)\<rparr>"
  have a: "(0::int) \<le> 0" "(0::int) < 50" "(0::int) < 1" by simp_all
  have "refine flat_fit exact sample_model 0 50 = Inr (?r50, ?s50, 3) \<and> status ?r50 = 0"
    using sample_refine_0_50 by simp
  then obtain k where k: "?r50 = \<lparr>status = 0, message = ''Converged'', niter = int k,
      dfinal = dfinal ?r50\<rparr> \<or> niter ?r50 = int k" "\<forall>i<k. rejects flat_fit exact 0 sample_model i"
    using refine_stops[OF a(1,2), of flat_fit exact sample_model ?r50 ?s50 3] by auto
  then have "k = 2" by auto
  then have r: "rejects flat_fit exact 0 sample_model 0" "rejects flat_fit exact 0 sample_model 1"
    using k(2) by simp_all
  have "refine flat_fit exact sample_model 0 1 = Inr (?r1, ?s1, 2) \<and> status ?r1 \<noteq> 0"
    using sample_refine_0_1 by simp
  then have e: "\<forall>i<nat 1 + 1. rejects flat_fit exact 0 sample_model i"
    using refine_stops[OF a(1,3), of flat_fit exact sample_model ?r1 ?s1 2] by blast
  show ?thesis
    using sample_refine_0_50 sample_refine_0_1 r by simp
qed

text \<open>
  C9. If \<open>refine\<close> returned with status 0 (Converged), calling it again on the instance it
  left, with the same arguments, returns status 0 (Converged) with \<open>niter = 0\<close> and the
  same final distance after a single classification, and leaves the instance as it was.
\<close>

theorem refine_again:
  assumes "refine fit rnd s td mi = Inr (res, s', n)" "status res = 0"
  shows "refine fit rnd s' td mi =
           Inr (\<lparr>status = 0, message = ''Converged'', niter = 0, dfinal = dfinal res\<rparr>, s', 1)"
proof -
  note st = refine_loop_start[OF assms(1)]
  have m: "nat (mi + 1 - 0) = nat (mi + 1)" by simp
  from loop_converged[OF m conjunct2[OF conjunct2[OF st]] assms(2)] obtain j s_j c where
    j: "classify rnd s_j = Inr (c, s')"
      "dist_xor c (as_bool (self_w s')) = Inr (dfinal res)" "dfinal res \<le> td"
    by blast
  have c': "classify rnd s' = Inr (c, s')" using classify_idem[OF j(1)] .
  have "commits fit rnd 0 s' = Inr s'" by simp
  from loop_converges[OF this c' j(2,3), of 0 mi 0 0] st
  show ?thesis by (simp add: refine_def)
qed

theorem refine_again_witness:
  "refine flat_fit exact sample_model 0 50 =
     Inr (\<lparr>status = 0, message = ''Converged'', niter = 2, dfinal = 0\<rparr>,
          sample_model\<lparr>self_w := [1, 1, 1, 0, 0, 0], rmad := Some (Fin 1),
                        stats_dirty := False\<rparr>, 3) \<and>
   refine flat_fit exact
     (sample_model\<lparr>self_w := [1, 1, 1, 0, 0, 0], rmad := Some (Fin 1), stats_dirty := False\<rparr>)
     0 50 =
     Inr (\<lparr>status = 0, message = ''Converged'', niter = 0, dfinal = 0\<rparr>,
          sample_model\<lparr>self_w := [1, 1, 1, 0, 0, 0], rmad := Some (Fin 1),
                        stats_dirty := False\<rparr>, 1)"
proof -
  have st: "status \<lparr>status = 0, message = ''Converged'', niter = 2, dfinal = 0\<rparr> = 0" by simp
  show ?thesis
    using refine_again[OF sample_refine_0_50 st] sample_refine_0_50 by simp
qed

section \<open>Properties of \<open>cure_knots\<close>\<close>

lemma py_get_nth: "i < length xs \<Longrightarrow> py_get xs (int i) = Inr (xs ! i)"
  by (simp add: py_get_def)

lemma py_get_pred: "0 < hi \<Longrightarrow> hi \<le> length xs \<Longrightarrow> py_get xs (int hi - 1) = Inr (xs ! (hi - 1))"
  by (auto simp: py_get_def nat_diff_distrib')

lemma knot_in_gap_eval:
  assumes "\<forall>iv \<in> set ivs. \<exists>lo hi. iv = [lo, hi] \<and> lo < hi \<and> hi \<le> length t"
  shows "knot_in_gap t knot ivs =
           Inr (\<exists>iv \<in> set ivs. t ! (iv ! 0) < knot \<and> knot < t ! (iv ! 1 - 1))"
  using assms
proof (induction ivs)
  case Nil
  show ?case by simp
next
  case (Cons iv ivs)
  then obtain lo hi where iv: "iv = [lo, hi]" "lo < hi" "hi \<le> length t" by auto
  have IH: "knot_in_gap t knot ivs =
           Inr (\<exists>iv \<in> set ivs. t ! (iv ! 0) < knot \<and> knot < t ! (iv ! 1 - 1))"
    using Cons by simp
  have g: "py_get t (int lo) = Inr (t ! lo)" "py_get t (int hi - 1) = Inr (t ! (hi - 1))"
    using iv py_get_nth[of lo t] py_get_pred[of hi t] by simp_all
  show ?case
    unfolding iv(1) by (auto simp: g IH)
qed

lemma cure_loop_eval:
  assumes "\<forall>iv \<in> set ivs. \<exists>lo hi. iv = [lo, hi] \<and> lo < hi \<and> hi \<le> length t"
  shows "cure_loop t ivs knots =
           Inr (filter (\<lambda>knot. \<not> (\<exists>iv \<in> set ivs. t ! (iv ! 0) < knot \<and> knot < t ! (iv ! 1 - 1))) knots)"
  by (induction knots) (simp_all add: knot_in_gap_eval[OF assms])

lemma mask_index_bounds:
  "\<forall>iv \<in> set (mask_index bs). \<exists>lo hi. iv = [lo, hi] \<and> lo < hi \<and> hi \<le> length bs"
proof
  fix iv assume "iv \<in> set (mask_index bs)"
  from ivs_from_mem[OF mask_index_struct this]
  show "\<exists>lo hi. iv = [lo, hi] \<and> lo < hi \<and> hi \<le> length bs" by auto
qed

lemma in_gap_runs:
  "(\<exists>iv \<in> set (mask_index bs). t ! (iv ! 0) < knot \<and> knot < t ! (iv ! 1 - 1)) \<longleftrightarrow>
   (\<exists>lo hi. is_run bs lo hi \<and> t ! lo < knot \<and> knot < t ! (hi - 1))"
proof
  assume "\<exists>iv \<in> set (mask_index bs). t ! (iv ! 0) < knot \<and> knot < t ! (iv ! 1 - 1)"
  then obtain iv where iv: "iv \<in> set (mask_index bs)" "t ! (iv ! 0) < knot" "knot < t ! (iv ! 1 - 1)"
    by blast
  obtain lo hi where lh: "iv = [lo, hi]" using ivs_from_mem[OF mask_index_struct iv(1)] by blast
  then have "is_run bs lo hi" using iv(1) mask_index_is_run by simp
  then show "\<exists>lo hi. is_run bs lo hi \<and> t ! lo < knot \<and> knot < t ! (hi - 1)"
    using iv(2,3) lh by auto
next
  assume "\<exists>lo hi. is_run bs lo hi \<and> t ! lo < knot \<and> knot < t ! (hi - 1)"
  then obtain lo hi where lh: "is_run bs lo hi" "t ! lo < knot" "knot < t ! (hi - 1)" by blast
  then have "[lo, hi] \<in> set (mask_index bs)" using is_run_mask_index by simp
  then show "\<exists>iv \<in> set (mask_index bs). t ! (iv ! 0) < knot \<and> knot < t ! (iv ! 1 - 1)"
    using lh(2,3) by (intro bexI[of _ "[lo, hi]"]) simp_all
qed

lemma init_override:
  "SplineModel_init fit t y 23 (Some ks) (Some w) kw =
     (if length t \<noteq> length y \<or> length w \<noteq> length t then Inl AssertionError
      else case fit t y ks w (init_kwargs kw) of
        Inl e \<Rightarrow> Inl e
      | Inr f \<Rightarrow>
          Inr \<lparr>self_t = t, self_y = y, self_w = w, self_knots = ks,
               kwargs_save = init_kwargs kw, spr = f, self_pred = map f t,
               stats_dirty = True, rmad = None\<rparr>)"
  by (simp add: SplineModel_init_def replace_mask_def init_kwargs_def split: sum.splits)

lemma cure_loop_kept:
  assumes "length (self_w s) = length (self_t s)"
  shows "cure_loop (self_t s) (mask_index (as_bool (self_w s))) (self_knots s) = Inr (kept_knots s)"
proof -
  have b: "\<forall>iv \<in> set (mask_index (as_bool (self_w s))).
      \<exists>lo hi. iv = [lo, hi] \<and> lo < hi \<and> hi \<le> length (self_t s)"
    using mask_index_bounds[of "as_bool (self_w s)"] assms by (simp add: as_bool_def)
  show ?thesis
    unfolding cure_loop_eval[OF b] kept_knots_def in_gap_runs ..
qed

lemma gap_model_cure:
  "cure_knots flat_fit gap_model = Inr (gap_model\<lparr>self_knots := [1 / 2, 2, 4, 9 / 2]\<rparr>)"
  by (simp add: cure_knots_def gap_model_def mask_index_def as_bool_def py_get_def
      SplineModel_init_def replace_mask_def flat_fit_def)

text \<open>
  C6. \<open>cure_knots\<close> builds a new instance on the same series and the current weight
  mask whose knots are exactly the knots that do not fall strictly inside the open span
  \<open>(t[lo], t[hi - 1])\<close> of a maximal run \<open>lo..<hi\<close> of outliers of the current mask, in
  their original order; so the new knots are among the old ones.  When the mask and the
  series have the same length the call returns that instance, refitted, unless the kernel
  raises.  The function assigns nothing to the instance it is called on: the model
  returns only the new instance.
\<close>

theorem cure_knots_prunes:
  "(length (self_w s) = length (self_t s) \<and> length (self_y s) = length (self_t s) \<longrightarrow>
      cure_knots fit s =
        (case fit (self_t s) (self_y s) (kept_knots s) (self_w s) (init_kwargs (kwargs_save s)) of
           Inl e \<Rightarrow> Inl e
         | Inr f \<Rightarrow>
             Inr \<lparr>self_t = self_t s, self_y = self_y s, self_w = self_w s,
                  self_knots = kept_knots s, kwargs_save = init_kwargs (kwargs_save s),
                  spr = f, self_pred = map f (self_t s), stats_dirty = True, rmad = None\<rparr>)) \<and>
   (cure_knots fit s = Inr s' \<longrightarrow>
      self_t s' = self_t s \<and> self_y s' = self_y s \<and> self_w s' = self_w s \<and>
      self_knots s' = kept_knots s) \<and>
   set (kept_knots s) \<subseteq> set (self_knots s)"
proof -
  have A: "cure_knots fit s =
        (case fit (self_t s) (self_y s) (kept_knots s) (self_w s) (init_kwargs (kwargs_save s)) of
           Inl e \<Rightarrow> Inl e
         | Inr f \<Rightarrow>
             Inr \<lparr>self_t = self_t s, self_y = self_y s, self_w = self_w s,
                  self_knots = kept_knots s, kwargs_save = init_kwargs (kwargs_save s),
                  spr = f, self_pred = map f (self_t s), stats_dirty = True, rmad = None\<rparr>)"
    if "length (self_w s) = length (self_t s)" "length (self_y s) = length (self_t s)"
    using that by (simp add: cure_knots_def cure_loop_kept init_override)
  have B: "self_t s' = self_t s \<and> self_y s' = self_y s \<and> self_w s' = self_w s \<and>
      self_knots s' = kept_knots s" if r: "cure_knots fit s = Inr s'"
  proof -
    obtain kt where kt: "cure_loop (self_t s) (mask_index (as_bool (self_w s))) (self_knots s) = Inr kt"
      and i: "SplineModel_init fit (self_t s) (self_y s) 23 (Some kt) (Some (self_w s)) (kwargs_save s) = Inr s'"
      using r by (auto simp: cure_knots_def split: sum.splits)
    have l: "length (self_w s) = length (self_t s)" "length (self_y s) = length (self_t s)"
      using i by (auto simp: init_override split: if_splits)
    then have "kt = kept_knots s" using kt cure_loop_kept by simp
    then show ?thesis using i l by (auto simp: init_override split: sum.splits)
  qed
  have C: "set (kept_knots s) \<subseteq> set (self_knots s)"
    by (simp add: kept_knots_def)
  show ?thesis using A B C by blast
qed

theorem cure_knots_prunes_witness:
  "cure_knots flat_fit gap_model = Inr (gap_model\<lparr>self_knots := [1 / 2, 2, 4, 9 / 2]\<rparr>) \<and>
   kept_knots gap_model = [1 / 2, 2, 4, 9 / 2] \<and>
   self_knots gap_model = [1 / 2, 2, 5 / 2, 3, 4, 9 / 2] \<and>
   self_w gap_model = [1, 1, 0, 0, 0, 1] \<and>
   set [1 / 2, 2, 4, 9 / 2] \<subseteq> set (self_knots gap_model)"
proof -
  let ?s' = "gap_model\<lparr>self_knots := [1 / 2, 2, 4, 9 / 2]\<rparr>"
  have "self_knots ?s' = kept_knots gap_model"
    using cure_knots_prunes[of gap_model flat_fit ?s'] gap_model_cure by blast
  then have k: "kept_knots gap_model = [1 / 2, 2, 4, 9 / 2]" by simp
  have "set (kept_knots gap_model) \<subseteq> set (self_knots gap_model)"
    using cure_knots_prunes[of gap_model flat_fit ?s'] by blast
  then show ?thesis using gap_model_cure k by (simp add: gap_model_def)
qed

section \<open>Properties of the constructor and of the parameter checks\<close>

lemma init_lengths:
  "length t \<noteq> length y \<Longrightarrow> SplineModel_init fit t y nknots ko w kw = Inl AssertionError"
  by (simp add: SplineModel_init_def)

lemma init_zero:
  "length t = length y \<Longrightarrow> SplineModel_init fit t y 0 ko w kw = Inl ZeroDivisionError"
  by (simp add: SplineModel_init_def)

lemma init_step_zero:
  "length t = length y \<Longrightarrow> nknots \<noteq> 0 \<Longrightarrow> int (length y) div nknots = 0 \<Longrightarrow>
   SplineModel_init fit t y nknots None w kw = Inl ValueError"
  by (simp add: SplineModel_init_def slice_from_def)

lemma init_override_any:
  "nknots \<noteq> 0 \<Longrightarrow>
   SplineModel_init fit t y nknots (Some ks) w kw =
     (if length t \<noteq> length y then Inl AssertionError
      else replace_mask fit
        \<lparr>self_t = t, self_y = y, self_w = [], self_knots = ks, kwargs_save = init_kwargs kw,
         spr = (\<lambda>x. 0), self_pred = [], stats_dirty = True, rmad = None\<rparr>
        (case w of None \<Rightarrow> replicate (length t) 1 | Some w' \<Rightarrow> w'))"
  by (simp add: SplineModel_init_def init_kwargs_def)

lemma replace_mask_knots:
  "replace_mask fit s w = Inr s' \<Longrightarrow>
   self_knots s' = self_knots s \<and> self_t s' = self_t s \<and> self_y s' = self_y s \<and>
   kwargs_save s' = kwargs_save s \<and> self_w s' = w"
  by (auto simp: replace_mask_def split: if_splits sum.splits)

lemma sample_init_7:
  "SplineModel_init flat_fit [0, 1, 2, 3, 4, 5] [1, 1, 1, 6, 6, 30] 7 (Some [5 / 2]) None
     Map.empty = Inr sample_model"
  by (simp add: SplineModel_init_def replace_mask_def flat_fit_def sample_model_def)

lemma aggregate_asserts:
  "\<not> 0 < d \<or> \<not> (0 < p \<and> p < 1) \<Longrightarrow>
   knot_shift_aggregate fit rnd model d p td mi = Inl AssertionError"
  by (auto simp: knot_shift_aggregate_def)

lemma refine_asserts:
  "td < 0 \<or> mi \<le> 0 \<Longrightarrow> refine fit rnd s td mi = Inl AssertionError"
  by (auto simp: refine_def)

text \<open>
  C10. The constructor divides by \<open>nknots\<close> before it looks at \<open>knots_override\<close>: for
  \<open>t\<close> and \<open>y\<close> of equal length (the constructor's precondition, asserted first), a call
  with \<open>nknots = 0\<close> raises ZeroDivisionError whether or not \<open>knots_override\<close> is given.
  With \<open>knots_override\<close> given and \<open>nknots \<ge> 1\<close> the result does not depend on
  \<open>nknots\<close>, and the knots of the instance are the override.
\<close>

theorem init_step_before_override:
  "(length t = length y \<longrightarrow> SplineModel_init fit t y 0 ko w kw = Inl ZeroDivisionError) \<and>
   (1 \<le> n1 \<and> 1 \<le> n2 \<longrightarrow>
      SplineModel_init fit t y n1 (Some ks) w kw = SplineModel_init fit t y n2 (Some ks) w kw) \<and>
   (1 \<le> n1 \<and> SplineModel_init fit t y n1 (Some ks) w kw = Inr m \<longrightarrow> self_knots m = ks)"
proof -
  have A: "SplineModel_init fit t y n1 (Some ks) w kw = SplineModel_init fit t y n2 (Some ks) w kw"
    if "1 \<le> n1" "1 \<le> n2"
    using that by (simp add: init_override_any)
  have B: "self_knots m = ks" if "1 \<le> n1" "SplineModel_init fit t y n1 (Some ks) w kw = Inr m"
    using that replace_mask_knots[of fit _ _ m]
    by (auto simp: init_override_any split: if_splits)
  show ?thesis using A B init_zero by blast
qed

theorem init_step_before_override_witness:
  "SplineModel_init flat_fit [0, 1, 2, 3, 4, 5] [1, 1, 1, 6, 6, 30] 0 (Some [5 / 2]) None
     Map.empty = Inl ZeroDivisionError \<and>
   SplineModel_init flat_fit [0, 1, 2, 3, 4, 5] [1, 1, 1, 6, 6, 30] 7 (Some [5 / 2]) None
     Map.empty = Inr sample_model \<and>
   SplineModel_init flat_fit [0, 1, 2, 3, 4, 5] [1, 1, 1, 6, 6, 30] 23 (Some [5 / 2]) None
     Map.empty = Inr sample_model \<and>
   self_knots sample_model = [5 / 2]"
proof -
  let ?t = "[0, 1, 2, 3, 4, 5] :: real list"
  let ?y = "[1, 1, 1, 6, 6, 30] :: real list"
  note T = init_step_before_override[of ?t ?y flat_fit "Some [5 / 2]" None Map.empty 7 23
      "[5 / 2]" sample_model]
  have l: "length ?t = length ?y" by simp
  have z: "SplineModel_init flat_fit ?t ?y 0 (Some [5 / 2]) None Map.empty = Inl ZeroDivisionError"
    using T l by blast
  have o: "(1::int) \<le> 7 \<and> (1::int) \<le> 23" by simp
  have e: "SplineModel_init flat_fit ?t ?y 7 (Some [5 / 2]) None Map.empty =
      SplineModel_init flat_fit ?t ?y 23 (Some [5 / 2]) None Map.empty"
    using T o by blast
  have k: "self_knots sample_model = [5 / 2]"
    using T o sample_init_7 by blast
  show ?thesis using z e k sample_init_7 by simp
qed

text \<open>
  C8, as amended. Invalid parameters make the call fail, each with the exception the code
  raises: \<open>t\<close> and \<open>y\<close> of different lengths, AssertionError; a zero knot count,
  ZeroDivisionError; without \<open>knots_override\<close>, a derived step \<open>N = 0\<close>, ValueError
  (the slice step is zero); in \<open>knot_shift_aggregate\<close>, \<open>duplicates \<le> 0\<close> or
  \<open>proximity_factor\<close> outside \<open>(0, 1)\<close>, AssertionError; in \<open>refine\<close>, a negative
  \<open>target_d\<close> or \<open>maxiter \<le> 0\<close>, AssertionError.  A negative knot count is not
  among them: the constructor does not reject it.
\<close>

theorem invalid_parameters_fail:
  "(length t \<noteq> length y \<longrightarrow> SplineModel_init fit t y nknots ko w kw = Inl AssertionError) \<and>
   (length t = length y \<and> nknots = 0 \<longrightarrow>
      SplineModel_init fit t y nknots ko w kw = Inl ZeroDivisionError) \<and>
   (length t = length y \<and> nknots \<noteq> 0 \<and> int (length y) div nknots = 0 \<longrightarrow>
      SplineModel_init fit t y nknots None w kw = Inl ValueError) \<and>
   (\<not> 0 < d \<or> \<not> (0 < p \<and> p < 1) \<longrightarrow>
      knot_shift_aggregate fit rnd model d p td mi = Inl AssertionError) \<and>
   (td < 0 \<or> mi \<le> 0 \<longrightarrow> refine fit rnd s td mi = Inl AssertionError)"
  using init_lengths[of t y fit nknots ko w kw] init_zero[of t y fit ko w kw]
    init_step_zero[of t y nknots fit w kw] aggregate_asserts[of d p fit rnd model td mi]
    refine_asserts[of td mi fit rnd s]
  by blast

theorem invalid_parameters_fail_witness:
  "SplineModel_init flat_fit [0, 1] [1] 23 None None Map.empty = Inl AssertionError \<and>
   SplineModel_init flat_fit [0, 1] [1, 1] 0 None None Map.empty = Inl ZeroDivisionError \<and>
   SplineModel_init flat_fit [0, 1] [1, 1] 23 None None Map.empty = Inl ValueError \<and>
   knot_shift_aggregate flat_fit exact sample_model 0 (1 / 2) 1 50 = Inl AssertionError \<and>
   knot_shift_aggregate flat_fit exact sample_model 3 1 1 50 = Inl AssertionError \<and>
   refine flat_fit exact sample_model (- 1) 50 = Inl AssertionError \<and>
   refine flat_fit exact sample_model 1 0 = Inl AssertionError"
proof -
  have 1: "SplineModel_init flat_fit [0, 1] [1] 23 None None Map.empty = Inl AssertionError"
    using invalid_parameters_fail[of "[0, 1]" "[1]" flat_fit 23 None None Map.empty]
    by simp
  have 2: "SplineModel_init flat_fit [0, 1] [1, 1] 0 None None Map.empty = Inl ZeroDivisionError"
    using invalid_parameters_fail[of "[0, 1]" "[1, 1]" flat_fit 0 None None Map.empty]
    by simp
  have 3: "SplineModel_init flat_fit [0, 1] [1, 1] 23 None None Map.empty = Inl ValueError"
    using invalid_parameters_fail[of "[0, 1]" "[1, 1]" flat_fit 23 None None Map.empty]
    by simp
  have 4: "knot_shift_aggregate flat_fit exact sample_model 0 (1 / 2) 1 50 = Inl AssertionError"
    using invalid_parameters_fail[where d = 0 and p = "1 / 2" and fit = flat_fit and rnd = exact
        and model = sample_model and td = 1 and mi = 50]
    by simp
  have 5: "knot_shift_aggregate flat_fit exact sample_model 3 1 1 50 = Inl AssertionError"
    using invalid_parameters_fail[where d = 3 and p = 1 and fit = flat_fit and rnd = exact
        and model = sample_model and td = 1 and mi = 50]
    by simp
  have 6: "refine flat_fit exact sample_model (- 1) 50 = Inl AssertionError"
    using invalid_parameters_fail[where td = "- 1" and mi = 50 and fit = flat_fit and rnd = exact
        and s = sample_model]
    by simp
  have 7: "refine flat_fit exact sample_model 1 0 = Inl AssertionError"
    using invalid_parameters_fail[where td = 1 and mi = 0 and fit = flat_fit and rnd = exact
        and s = sample_model]
    by simp
  show ?thesis using 1 2 3 4 5 6 7 by simp
qed

text \<open>
  The claim as stated fails: with six samples and \<open>nknots = -3\<close> the derived step is
  \<open>N = -2\<close>, the slice \<open>t[1::-2]\<close> is \<open>[t[1]]\<close>, and the constructor returns an
  instance with that one knot.
\<close>

theorem negative_nknots_counterexample:
  "SplineModel_init flat_fit [0, 1, 2, 3, 4, 5] [1, 1, 1, 6, 6, 30] (- 3) None None Map.empty =
     Inr (sample_model\<lparr>self_knots := [1]\<rparr>)"
  by (simp add: SplineModel_init_def slice_from_def replace_mask_def flat_fit_def
      sample_model_def)

section \<open>Properties of \<open>knot_shift_aggregate\<close>\<close>




lemma refined_scales:
  "shift_scales exact refined_model 1 (1 / 2) = Inr (5 / 4, 5 / 4)"
  by (simp add: shift_scales_def refined_model_def sample_model_def exact_def)


lemma refined_is_refined:
  "refine flat_fit exact sample_model 0 50 =
     Inr (\<lparr>status = 0, message = ''Converged'', niter = 2, dfinal = 0\<rparr>, refined_model, 3)"
  using sample_refine_0_50 by (simp add: refined_model_def)

lemma refined_left:
  "shifted_loop flat_fit exact refined_model (5 / 4) 1 50 [- 1] =
     Inr [sample_model\<lparr>self_knots := [5 / 4], rmad := Some (Fin (7 / 2)),
                        stats_dirty := False\<rparr>]"
  by (simp add: shifted_member_def shifted_knots_def SplineModel_init_def
      refine_eval_defs refine_loop.simps refined_model_def)

lemma refined_right:
  "shifted_loop flat_fit exact refined_model (5 / 4) 1 50 [1] =
     Inr [sample_model\<lparr>self_knots := [15 / 4], rmad := Some (Fin (7 / 2)),
                        stats_dirty := False\<rparr>]"
  by (simp add: shifted_member_def shifted_knots_def SplineModel_init_def
      refine_eval_defs refine_loop.simps refined_model_def)

lemma refined_consensus:
  "consensus exact (self_w refined_model)
     [sample_model\<lparr>self_knots := [5 / 4], rmad := Some (Fin (7 / 2)), stats_dirty := False\<rparr>,
      sample_model\<lparr>self_knots := [15 / 4], rmad := Some (Fin (7 / 2)), stats_dirty := False\<rparr>] =
     Inr [1, 1, 1, 0, 0, 0]"
  by (simp add: imul_def exact_def refined_model_def sample_model_def)

lemma refined_final:
  "final_model flat_fit refined_model [1, 1, 1, 0, 0, 0] = Inl ValueError"
  by (simp add: final_model_def SplineModel_init_def slice_from_def refined_model_def
      sample_model_def)




text \<open>
  C2. The final model is constructed without knots: \<open>final_model\<close> does not depend on
  the knots of the base model, and derives its knots from the series with the default
  knot count 23.  On \<open>refined_model\<close> (six samples, knots \<open>[5/2]\<close>) the derived step
  is \<open>6 // 23 = 0\<close> and the aggregator raises ValueError, where the claim has a final
  model built on the knots \<open>[5/2]\<close>.
\<close>

theorem aggregate_final_model_knots:
  "final_model fit (model\<lparr>self_knots := ks\<rparr>) w = final_model fit model w \<and>
   self_knots refined_model = [5 / 2] \<and>
   knot_shift_aggregate flat_fit exact refined_model 1 (1 / 2) 1 50 = Inl ValueError"
proof -
  have a: "final_model fit (model\<lparr>self_knots := ks\<rparr>) w = final_model fit model w"
    by (simp add: final_model_def)
  have b: "self_knots refined_model = [5 / 2]"
    by (simp add: refined_model_def sample_model_def)
  have c: "knot_shift_aggregate flat_fit exact refined_model 1 (1 / 2) 1 50 = Inl ValueError"
    by (simp add: knot_shift_aggregate_def refined_scales refined_left refined_right
        refined_consensus refined_final
        del: shifted_loop.simps consensus.simps)
  show ?thesis using a b c by simp
qed

subsection \<open>The shifted knots\<close>






















end
